theory Spec2Isabelle
  imports Complex_Main
begin

section \<open>Wire types and callbacks (types.ts)\<close>

text \<open>
  A value thrown by a callback is kept as the text \<open>String(e)\<close> that the dispatcher
  puts into a failure response.
\<close>

type_synonym thrown = string

datatype json = JNull | JBool bool | JNum real | JStr string
  | JArr "json list" | JObj "(string \<times> json) list"

text \<open>What a property getter may return: \<open>string | number | boolean | null\<close>.\<close>

datatype prim = PString string | PNumber real | PBoolean bool | PNull

text \<open>
  A synchronous callback either returns or throws. A handler that may be asynchronous
  returns, throws, or hands back a promise that is later fulfilled or rejected.
  Callbacks are queried on demand and never cached, so the registry stores for each of
  them the behaviour it shows when it is called.
\<close>

datatype 'a outcome = Returns 'a | Throws thrown

datatype 'a settled = Returned 'a | Thrown thrown | Resolved 'a | Rejected thrown

text \<open>\<open>try { await f(x) } catch (e) { ... }\<close>: the value, or what the catch block receives.\<close>

fun await :: "'a settled \<Rightarrow> thrown + 'a" where
  "await (Returned v) = Inr v"
| "await (Resolved v) = Inr v"
| "await (Thrown e) = Inl e"
| "await (Rejected e) = Inl e"

record position =
  pos_x :: real
  pos_y :: real

text \<open>
  A command handler's value is a JSON value, or \<open>undefined\<close> (\<open>None\<close>). Handlers are
  described by how they settle.
\<close>

type_synonym PropertyGetter = "prim outcome"
type_synonym ActionHandler = "string list \<Rightarrow> unit settled"
type_synonym CommandHandler = "string \<Rightarrow> json option settled"

record ElementDescriptor =
  el_name :: string
  getPosition :: "position option outcome"

text \<open>
  The \<open>parameters\<close> bag of a command, read only through the keys \<open>name\<close>,
  \<open>args\<close>, \<open>param\<close> and \<open>path\<close>; \<open>None\<close> is a key that is absent.
\<close>

record params =
  p_name :: "string option"
  p_args :: "string list option"
  p_param :: "string option"
  p_path :: "string option"

record PlayGuardCommand =
  cmd_id :: string
  cmd_command :: string
  parameters :: "params option"

record ui_element =
  ui_name :: string
  ui_path :: string
  ui_type :: string
  ui_active :: bool
  ui_x :: real
  ui_y :: real
  ui_z :: real

text \<open>
  The \<open>data\<close> of a response: \<open>'pong'\<close>, \<open>{properties: [...]}\<close>, \<open>{actions: [...]}\<close>,
  \<open>{commands: [...]}\<close>, \<open>{value: String(v)}\<close>, a command handler's value as it is, and
  \<open>{elements: [...]}\<close>.
\<close>

datatype payload = Pong | PropertyList "string list" | ActionList "string list"
  | CommandList "string list" | PropertyValue prim | CommandResult json
  | ElementList "ui_element list"

record PlayGuardResponse =
  rsp_id :: string
  rsp_command :: string
  success :: bool
  data :: "payload option"
  error :: "string option"

text \<open>The data of an \<open>elementTapped\<close> event; a field that the object lacks is \<open>None\<close>.\<close>

record tapped =
  element :: string
  matchType :: string
  tapX :: "int option"
  tapY :: "int option"
  elementX :: "int option"
  elementY :: "int option"
  dist :: "int option"

datatype message = Response PlayGuardResponse | Event string tapped

section \<open>The host platform\<close>

type_synonym node = nat

record host =
  elementFromPoint :: "real \<Rightarrow> real \<Rightarrow> node option"
  tagName :: "node \<Rightarrow> string"
  node_contains :: "node \<Rightarrow> node \<Rightarrow> bool"

text \<open>A synthetic event built with \<open>{bubbles, clientX, clientY}\<close>.\<close>

record synthetic =
  ev_class :: string
  ev_type :: string
  bubbles :: bool
  clientX :: real
  clientY :: real

text \<open>
  What a method of the SDK does to the outside: it hands a message to
  \<open>wsClient.send\<close>, or it dispatches a synthetic event to a node.
\<close>

datatype effect = Send message | DispatchEvent node synthetic

datatype completion = Fulfilled | RejectedWith thrown

section \<open>The registry (PlayGuardSDK)\<close>

text \<open>
  A JavaScript \<open>Map\<close> iterates in insertion order, and \<open>set\<close> on a key that is
  present keeps the key's place.
\<close>

fun Map_set :: "string \<Rightarrow> 'v \<Rightarrow> (string \<times> 'v) list \<Rightarrow> (string \<times> 'v) list" where
  "Map_set k v [] = [(k, v)]"
| "Map_set k v ((k', v') # m) = (if k = k' then (k, v) # m else (k', v') # Map_set k v m)"

text \<open>\<open>Map.get\<close> with a key read from the parameters: an absent key finds nothing.\<close>

fun Map_get :: "(string \<times> 'v) list \<Rightarrow> string option \<Rightarrow> 'v option" where
  "Map_get m None = None"
| "Map_get m (Some k) = map_of m k"

definition Map_keys :: "(string \<times> 'v) list \<Rightarrow> string list" where
  "Map_keys m = map fst m"

definition Map_values :: "(string \<times> 'v) list \<Rightarrow> 'v list" where
  "Map_values m = map snd m"

record PlayGuardSDK =
  properties :: "(string \<times> PropertyGetter) list"
  actions :: "(string \<times> ActionHandler) list"
  commands :: "(string \<times> CommandHandler) list"
  elements :: "(string \<times> ElementDescriptor) list"
  clickMonitoringActive :: bool

definition new_sdk :: PlayGuardSDK where
  "new_sdk = \<lparr>properties = [], actions = [], commands = [], elements = [],
     clickMonitoringActive = False\<rparr>"

definition registerProperty :: "string \<Rightarrow> PropertyGetter \<Rightarrow> PlayGuardSDK \<Rightarrow> PlayGuardSDK" where
  "registerProperty n getter sdk = sdk\<lparr>properties := Map_set n getter (properties sdk)\<rparr>"

definition registerAction :: "string \<Rightarrow> ActionHandler \<Rightarrow> PlayGuardSDK \<Rightarrow> PlayGuardSDK" where
  "registerAction n fn sdk = sdk\<lparr>actions := Map_set n fn (actions sdk)\<rparr>"

definition registerCommand :: "string \<Rightarrow> CommandHandler \<Rightarrow> PlayGuardSDK \<Rightarrow> PlayGuardSDK" where
  "registerCommand n fn sdk = sdk\<lparr>commands := Map_set n fn (commands sdk)\<rparr>"

text \<open>
  The pointer-listening SDK starts monitoring at the first registration; the SDK with
  \<open>notifyTapped\<close> only stores the element.
\<close>

definition registerElement ::
  "string \<Rightarrow> position option outcome \<Rightarrow> PlayGuardSDK \<Rightarrow> PlayGuardSDK" where
  "registerElement n g sdk =
     sdk\<lparr>elements := Map_set n \<lparr>el_name = n, getPosition = g\<rparr> (elements sdk),
         clickMonitoringActive := True\<rparr>"

definition registerElement_explicit ::
  "string \<Rightarrow> position option outcome \<Rightarrow> PlayGuardSDK \<Rightarrow> PlayGuardSDK" where
  "registerElement_explicit n g sdk =
     sdk\<lparr>elements := Map_set n \<lparr>el_name = n, getPosition = g\<rparr> (elements sdk)\<rparr>"

section \<open>The dispatcher (PlayGuardSDK.handleCommand)\<close>

definition sendEvent :: "string \<Rightarrow> tapped \<Rightarrow> effect list" where
  "sendEvent ev d = [Send (Event ev d)]"

definition respond ::
  "string \<Rightarrow> string \<Rightarrow> bool \<Rightarrow> payload option \<Rightarrow> string option \<Rightarrow> effect list" where
  "respond i c s d e =
     [Send (Response \<lparr>rsp_id = i, rsp_command = c, success = s, data = d, error = e\<rparr>)]"

text \<open>A name inside a template literal: \<open>'${name}'\<close>, with \<open>undefined\<close> for a missing one.\<close>

definition quoted :: "string option \<Rightarrow> string" where
  "quoted n = [CHR 0x27] @ (case n of None \<Rightarrow> ''undefined'' | Some s \<Rightarrow> s) @ [CHR 0x27]"

text \<open>
  \<open>[...this.elements.values()].map(...)\<close> calls every getter in order; a getter that
  throws ends the map, and nothing catches it.
\<close>

fun ui_elements :: "ElementDescriptor list \<Rightarrow> thrown + ui_element list" where
  "ui_elements [] = Inr []"
| "ui_elements (el # rest) =
     (case getPosition el of
        Throws e \<Rightarrow> Inl e
      | Returns p \<Rightarrow>
          (case ui_elements rest of
             Inl e \<Rightarrow> Inl e
           | Inr us \<Rightarrow>
               Inr (\<lparr>ui_name = el_name el, ui_path = el_name el, ui_type = ''HTML5Element'',
                      ui_active = True,
                      ui_x = (case p of None \<Rightarrow> 0 | Some q \<Rightarrow> pos_x q),
                      ui_y = (case p of None \<Rightarrow> 0 | Some q \<Rightarrow> pos_y q),
                      ui_z = 0\<rparr> # us)))"

definition synthetic_tap :: "node \<Rightarrow> position \<Rightarrow> effect list" where
  "synthetic_tap target pos =
     [DispatchEvent target \<lparr>ev_class = ''PointerEvent'', ev_type = ''pointerdown'',
        bubbles = True, clientX = pos_x pos, clientY = pos_y pos\<rparr>,
      DispatchEvent target \<lparr>ev_class = ''PointerEvent'', ev_type = ''pointerup'',
        bubbles = True, clientX = pos_x pos, clientY = pos_y pos\<rparr>,
      DispatchEvent target \<lparr>ev_class = ''MouseEvent'', ev_type = ''click'',
        bubbles = True, clientX = pos_x pos, clientY = pos_y pos\<rparr>]"

definition tapElement :: "PlayGuardSDK \<Rightarrow> host \<Rightarrow> string \<Rightarrow> string \<Rightarrow> string option
    \<Rightarrow> effect list \<times> completion" where
  "tapElement sdk h i c path =
     (case Map_get (elements sdk) path of
        None \<Rightarrow>
          (respond i c False None (Some (''Element '' @ quoted path @ '' not registered'')),
           Fulfilled)
      | Some el \<Rightarrow>
          (case getPosition el of
             Throws e \<Rightarrow> ([], RejectedWith e)
           | Returns None \<Rightarrow>
               (respond i c False None
                  (Some (''Element '' @ quoted path @ '' returned null position'')),
                Fulfilled)
           | Returns (Some pos) \<Rightarrow>
               (case elementFromPoint h (pos_x pos) (pos_y pos) of
                  None \<Rightarrow> (respond i c True None None, Fulfilled)
                | Some target \<Rightarrow>
                    (synthetic_tap target pos @ respond i c True None None, Fulfilled))))"

text \<open>\<open>parameters || {}\<close>, and \<open>parameters?.name\<close> alike: no bag is an empty bag.\<close>

definition or_empty :: "params option \<Rightarrow> params" where
  "or_empty ps =
     (case ps of
        None \<Rightarrow> \<lparr>p_name = None, p_args = None, p_param = None, p_path = None\<rparr>
      | Some p \<Rightarrow> p)"

definition handleCommand ::
  "PlayGuardSDK \<Rightarrow> host \<Rightarrow> PlayGuardCommand \<Rightarrow> effect list \<times> completion" where
  "handleCommand sdk h cmd =
    (let i = cmd_id cmd; c = cmd_command cmd; ps = or_empty (parameters cmd)
     in
     if c = ''ping'' then (respond i c True (Some Pong) None, Fulfilled)
     else if c = ''listCustomProperties'' then
       (respond i c True (Some (PropertyList (Map_keys (properties sdk)))) None, Fulfilled)
     else if c = ''listCustomActions'' then
       (respond i c True (Some (ActionList (Map_keys (actions sdk)))) None, Fulfilled)
     else if c = ''listCustomCommands'' then
       (respond i c True (Some (CommandList (Map_keys (commands sdk)))) None, Fulfilled)
     else if c = ''getCustomProperty'' then
       (case Map_get (properties sdk) (p_name ps) of
          None \<Rightarrow>
            (respond i c False None
               (Some (''Property '' @ quoted (p_name ps) @ '' not found'')), Fulfilled)
        | Some getter \<Rightarrow>
            (case getter of
               Returns v \<Rightarrow> (respond i c True (Some (PropertyValue v)) None, Fulfilled)
             | Throws e \<Rightarrow> (respond i c False None (Some e), Fulfilled)))
     else if c = ''executeCustomAction'' then
       (case Map_get (actions sdk) (p_name ps) of
          None \<Rightarrow>
            (respond i c False None
               (Some (''Action '' @ quoted (p_name ps) @ '' not found'')), Fulfilled)
        | Some fn \<Rightarrow>
            (case await (fn (case p_args ps of None \<Rightarrow> [] | Some a \<Rightarrow> a)) of
               Inr _ \<Rightarrow> (respond i c True None None, Fulfilled)
             | Inl e \<Rightarrow> (respond i c False None (Some e), Fulfilled)))
     else if c = ''executeCustomCommand'' then
       (case Map_get (commands sdk) (p_name ps) of
          None \<Rightarrow>
            (respond i c False None
               (Some (''Command '' @ quoted (p_name ps) @ '' not found'')), Fulfilled)
        | Some fn \<Rightarrow>
            (case await (fn (case p_param ps of None \<Rightarrow> [] | Some s \<Rightarrow> s)) of
               Inr result \<Rightarrow>
                 (respond i c True (map_option CommandResult result) None, Fulfilled)
             | Inl e \<Rightarrow> (respond i c False None (Some e), Fulfilled)))
     else if c = ''getUIElements'' then
       (case ui_elements (Map_values (elements sdk)) of
          Inl e \<Rightarrow> ([], RejectedWith e)
        | Inr us \<Rightarrow> (respond i c True (Some (ElementList us)) None, Fulfilled))
     else if c = ''tapElement'' then tapElement sdk h i c (p_path ps)
     else (respond i c False None (Some (''Unknown command: '' @ c)), Fulfilled))"

text \<open>The responses among the effects of a dispatch, in the order they were sent.\<close>

fun responses :: "effect list \<Rightarrow> PlayGuardResponse list" where
  "responses [] = []"
| "responses (Send (Response r) # es) = r # responses es"
| "responses (_ # es) = responses es"

fun dispatched :: "effect list \<Rightarrow> (node \<times> synthetic) list" where
  "dispatched [] = []"
| "dispatched (DispatchEvent n ev # es) = (n, ev) # dispatched es"
| "dispatched (_ # es) = dispatched es"

section \<open>Explicit tap notification (PlayGuardSDK.notifyTapped)\<close>

definition notifyTapped :: "PlayGuardSDK \<Rightarrow> string \<Rightarrow> effect list" where
  "notifyTapped sdk n =
     sendEvent ''elementTapped''
       \<lparr>element = n, matchType = ''explicit'', tapX = None, tapY = None,
        elementX = None, elementY = None, dist = None\<rparr>"

section \<open>Tap routing (PlayGuardSDK.onPointerDown)\<close>

subsection \<open>Number arithmetic\<close>

text \<open>\<open>Math.round\<close> rounds to the nearest integer, a half upwards, as \<open>round\<close> does.\<close>

definition Math_round :: "real \<Rightarrow> int" where
  "Math_round v = \<lfloor>v + 1 / 2\<rfloor>"

text \<open>
  A JavaScript number is an IEEE 754 double: a finite one is \<open>m * 2^e\<close> with
  \<open>\<bar>m\<bar> < 2^53\<close> and \<open>-1074 \<le> e \<le> 971\<close>. Coordinates are finite doubles, given by their
  values. Every operation yields the exact result rounded to the nearest double, a tie
  going to the even significand; the unit of the rounding is \<open>2^(E - 52)\<close> when the
  exact result lies in \<open>[2^E, 2^(E + 1))\<close>, and \<open>2^(-1074)\<close> below the normal range. A
  result whose rounding reaches \<open>2^1024\<close> is \<open>Infinity\<close>, for which the number
  \<open>2^1024\<close> stands here, above every finite double.
\<close>

definition Infinity :: real where
  "Infinity = 2 ^ 1024"

definition pow2 :: "int \<Rightarrow> real" where
  "pow2 e = (if 0 \<le> e then 2 ^ nat e else inverse (2 ^ nat (- e)))"

definition round_ties_even :: "real \<Rightarrow> int" where
  "round_ties_even q =
     (let f = \<lfloor>q\<rfloor> in
      if q - of_int f < 1 / 2 then f
      else if 1 / 2 < q - of_int f then f + 1
      else if even f then f else f + 1)"

definition to_double :: "real \<Rightarrow> real" where
  "to_double x =
     (if x = 0 then 0
      else let e = max (\<lfloor>log 2 \<bar>x\<bar>\<rfloor> - 52) (- 1074);
               r = of_int (round_ties_even (x / pow2 e)) * pow2 e
           in if Infinity \<le> \<bar>r\<bar> then sgn x * Infinity else r)"

text \<open>
  The four operations of the distance: \<open>a - b\<close> on finite doubles, \<open>x ** 2\<close>,
  \<open>a + b\<close> on two squares, and \<open>Math.sqrt\<close> of their sum (never negative, and
  \<open>Infinity\<close> when the sum is). The language leaves the precision of \<open>**\<close> and of
  \<open>Math.sqrt\<close> to the engine; they are taken as the engines give them, \<open>x ** 2\<close> as
  the product \<open>x * x\<close> and the square root correctly rounded. With finite coordinates
  no operation meets \<open>NaN\<close>.
\<close>

definition Number_subtract :: "real \<Rightarrow> real \<Rightarrow> real" where
  "Number_subtract a b = to_double (a - b)"

definition Number_square :: "real \<Rightarrow> real" where
  "Number_square x = to_double (x * x)"

definition Number_add :: "real \<Rightarrow> real \<Rightarrow> real" where
  "Number_add a b = to_double (a + b)"

definition Math_sqrt :: "real \<Rightarrow> real" where
  "Math_sqrt x = (if Infinity \<le> x then Infinity else to_double (sqrt x))"

text \<open>\<open>Math.sqrt((pos.x - clientX) ** 2 + (pos.y - clientY) ** 2)\<close>, as it is computed.\<close>

definition euclid :: "real \<Rightarrow> real \<Rightarrow> position \<Rightarrow> real" where
  "euclid X Y pos =
     Math_sqrt (Number_add (Number_square (Number_subtract (pos_x pos) X))
                           (Number_square (Number_subtract (pos_y pos) Y)))"

text \<open>The Euclidean distance of the specification, in exact arithmetic.\<close>

definition euclidean_distance :: "real \<Rightarrow> real \<Rightarrow> position \<Rightarrow> real" where
  "euclidean_distance X Y pos = sqrt ((pos_x pos - X)\<^sup>2 + (pos_y pos - Y)\<^sup>2)"

subsection \<open>The pointer listener\<close>

definition dom_event :: "string \<Rightarrow> real \<Rightarrow> real \<Rightarrow> position \<Rightarrow> tapped" where
  "dom_event n X Y pos =
     \<lparr>element = n, matchType = ''dom'', tapX = Some (Math_round X), tapY = Some (Math_round Y),
      elementX = Some (Math_round (pos_x pos)), elementY = Some (Math_round (pos_y pos)),
      dist = None\<rparr>"

definition canvas_event :: "string \<Rightarrow> real \<Rightarrow> real \<Rightarrow> position \<Rightarrow> real \<Rightarrow> tapped" where
  "canvas_event n X Y pos d =
     \<lparr>element = n, matchType = ''canvas'', tapX = Some (Math_round X),
      tapY = Some (Math_round Y), elementX = Some (Math_round (pos_x pos)),
      elementY = Some (Math_round (pos_y pos)), dist = Some (Math_round d)\<rparr>"

text \<open>The loop of the DOM branch; a getter that throws ends the listener.\<close>

fun dom_scan :: "host \<Rightarrow> node \<Rightarrow> real \<Rightarrow> real \<Rightarrow> (string \<times> ElementDescriptor) list
    \<Rightarrow> thrown + effect list" where
  "dom_scan h tapped X Y [] = Inr []"
| "dom_scan h tapped X Y ((n, el) # rest) =
     (case getPosition el of
        Throws e \<Rightarrow> Inl e
      | Returns None \<Rightarrow> dom_scan h tapped X Y rest
      | Returns (Some pos) \<Rightarrow>
          (case elementFromPoint h (pos_x pos) (pos_y pos) of
             None \<Rightarrow> dom_scan h tapped X Y rest
           | Some elAtCenter \<Rightarrow>
               if tagName h elAtCenter = ''CANVAS'' then dom_scan h tapped X Y rest
               else if elAtCenter = tapped \<or> node_contains h elAtCenter tapped
                       \<or> node_contains h tapped elAtCenter
               then Inr (sendEvent ''elementTapped'' (dom_event n X Y pos))
               else dom_scan h tapped X Y rest))"

record closest =
  closestName :: "string option"
  closestDist :: real
  closestPos :: "position option"

definition THRESHOLD :: real where
  "THRESHOLD = 35"

text \<open>The loop of the canvas branch, with its three local variables.\<close>

fun canvas_scan :: "real \<Rightarrow> real \<Rightarrow> (string \<times> ElementDescriptor) list \<Rightarrow> closest
    \<Rightarrow> thrown + closest" where
  "canvas_scan X Y [] c = Inr c"
| "canvas_scan X Y ((n, el) # rest) c =
     (case getPosition el of
        Throws e \<Rightarrow> Inl e
      | Returns None \<Rightarrow> canvas_scan X Y rest c
      | Returns (Some pos) \<Rightarrow>
          (if euclid X Y pos < closestDist c
           then canvas_scan X Y rest
                  \<lparr>closestName = Some n, closestDist = euclid X Y pos, closestPos = Some pos\<rparr>
           else canvas_scan X Y rest c))"

text \<open>
  \<open>closestPos!.x\<close> reads a property of \<open>null\<close> when no position was stored, which
  throws a TypeError.
\<close>

definition onPointerDown :: "PlayGuardSDK \<Rightarrow> host \<Rightarrow> real \<Rightarrow> real \<Rightarrow> thrown + effect list" where
  "onPointerDown sdk h X Y =
     (if elements sdk = [] then Inr []
      else case elementFromPoint h X Y of
        None \<Rightarrow> Inr []
      | Some tapped \<Rightarrow>
          if tagName h tapped \<noteq> ''CANVAS'' then dom_scan h tapped X Y (elements sdk)
          else (case canvas_scan X Y (elements sdk)
                       \<lparr>closestName = None, closestDist = THRESHOLD, closestPos = None\<rparr> of
                  Inl e \<Rightarrow> Inl e
                | Inr c \<Rightarrow>
                    (case closestName c of
                       None \<Rightarrow> Inr []
                     | Some n \<Rightarrow>
                         (case closestPos c of
                            None \<Rightarrow> Inl ''TypeError''
                          | Some pos \<Rightarrow>
                              Inr (sendEvent ''elementTapped''
                                     (canvas_event n X Y pos (closestDist c)))))))"

text \<open>
  For stating what the router does: the elements whose getter returns a position, in
  registration order, and whether an element's node is hit by the tapped node.
\<close>

fun positioned :: "(string \<times> ElementDescriptor) list \<Rightarrow> (string \<times> position) list" where
  "positioned [] = []"
| "positioned ((n, el) # rest) =
     (case getPosition el of
        Returns (Some pos) \<Rightarrow> (n, pos) # positioned rest
      | _ \<Rightarrow> positioned rest)"

fun returns :: "'a outcome \<Rightarrow> bool" where
  "returns (Returns _) = True"
| "returns (Throws _) = False"

definition skipped :: "host \<Rightarrow> ElementDescriptor \<Rightarrow> bool" where
  "skipped h el =
     (case getPosition el of
        Throws e \<Rightarrow> False
      | Returns None \<Rightarrow> True
      | Returns (Some pos) \<Rightarrow>
          (case elementFromPoint h (pos_x pos) (pos_y pos) of
             None \<Rightarrow> True
           | Some c \<Rightarrow> tagName h c = ''CANVAS''))"

definition hit :: "host \<Rightarrow> node \<Rightarrow> ElementDescriptor \<Rightarrow> bool" where
  "hit h tapped el =
     (case getPosition el of
        Returns (Some pos) \<Rightarrow>
          (case elementFromPoint h (pos_x pos) (pos_y pos) of
             None \<Rightarrow> False
           | Some c \<Rightarrow> tagName h c \<noteq> ''CANVAS''
               \<and> (c = tapped \<or> node_contains h c tapped \<or> node_contains h tapped c))
      | _ \<Rightarrow> False)"

section \<open>The transport (WSClient)\<close>

subsection \<open>Inbound frames\<close>

text \<open>\<open>String(event.data).split('\n')\<close>: a text of \<open>k\<close> newlines has \<open>k + 1\<close> lines.\<close>

fun split_lines :: "string \<Rightarrow> string list" where
  "split_lines [] = [[]]"
| "split_lines (c # cs) =
     (if c = CHR 0x0A then [] # split_lines cs
      else (case split_lines cs of
              [] \<Rightarrow> [[c]]
            | l # ls \<Rightarrow> (c # l) # ls))"

text \<open>
  The white space and line terminators that \<open>trim\<close> strips, among the characters of
  \<open>char\<close>: tab, line feed, vertical tab, form feed, carriage return, space and the
  no-break space.
\<close>

definition is_space :: "char \<Rightarrow> bool" where
  "is_space c = (c \<in> {CHR 0x09, CHR 0x0A, CHR 0x0B, CHR 0x0C, CHR 0x0D, CHR 0x20, CHR 0xA0})"

definition trim :: "string \<Rightarrow> string" where
  "trim l = rev (dropWhile is_space (rev (dropWhile is_space l)))"

datatype line_effect = HandlerCalled PlayGuardCommand | Warned string

text \<open>
  The body of \<open>onmessage\<close>. \<open>JSON_parse\<close> is the platform's parser, \<open>None\<close> where it
  throws; a document that parses is taken to have the shape of a command. The
  \<open>try\<close> block also covers the call of the handler, so a handler that throws gets the
  same warning.
\<close>

fun process_lines :: "(string \<Rightarrow> PlayGuardCommand option)
    \<Rightarrow> (PlayGuardCommand \<Rightarrow> unit outcome) option \<Rightarrow> string list \<Rightarrow> line_effect list" where
  "process_lines JSON_parse onMessage [] = []"
| "process_lines JSON_parse onMessage (line # rest) =
     (if trim line = [] then process_lines JSON_parse onMessage rest
      else (case JSON_parse line of
              None \<Rightarrow> Warned line # process_lines JSON_parse onMessage rest
            | Some msg \<Rightarrow>
                (case onMessage of
                   None \<Rightarrow> process_lines JSON_parse onMessage rest
                 | Some handler \<Rightarrow>
                     (case handler msg of
                        Returns _ \<Rightarrow>
                          HandlerCalled msg # process_lines JSON_parse onMessage rest
                      | Throws e \<Rightarrow>
                          HandlerCalled msg # Warned line
                            # process_lines JSON_parse onMessage rest))))"

definition onmessage :: "(string \<Rightarrow> PlayGuardCommand option)
    \<Rightarrow> (PlayGuardCommand \<Rightarrow> unit outcome) option \<Rightarrow> string \<Rightarrow> line_effect list" where
  "onmessage JSON_parse onMessage d = process_lines JSON_parse onMessage (split_lines d)"

fun handler_calls :: "line_effect list \<Rightarrow> PlayGuardCommand list" where
  "handler_calls [] = []"
| "handler_calls (HandlerCalled m # es) = m # handler_calls es"
| "handler_calls (Warned l # es) = handler_calls es"

fun warnings :: "line_effect list \<Rightarrow> string list" where
  "warnings [] = []"
| "warnings (HandlerCalled m # es) = warnings es"
| "warnings (Warned l # es) = l # warnings es"

text \<open>
  The frame handling as the specification words it: every non-empty line is parsed, a
  line that fails to parse is dropped with a diagnostic, a line that parses is delivered.
\<close>

definition onmessage_spec :: "(string \<Rightarrow> PlayGuardCommand option) \<Rightarrow> string
    \<Rightarrow> line_effect list" where
  "onmessage_spec JSON_parse d =
     map (\<lambda>l. case JSON_parse l of None \<Rightarrow> Warned l | Some m \<Rightarrow> HandlerCalled m)
       (filter (\<lambda>l. l \<noteq> []) (split_lines d))"

subsection \<open>Connection state\<close>

datatype readyState = CONNECTING | OPEN | CLOSING | CLOSED

type_synonym sock = nat
type_synonym timer = nat

text \<open>
  What the client does to the platform and to its observers, in order. A message that is
  written stands for its line \<open>JSON.stringify(message) + '\n'\<close>. The observers
  \<open>onConnected\<close> and \<open>onDisconnected\<close> are only notified: they do not call back into
  the client.
\<close>

datatype io = Constructed sock | CloseCalled sock | Wrote sock message
  | Scheduled timer nat | Cancelled timer | NotifyConnected | NotifyDisconnected
  | Line line_effect

text \<open>
  The fields of \<open>WSClient\<close>, and with them the platform state they refer to: the
  \<open>readyState\<close> of every socket constructed so far (a socket is its index), the
  timeouts that are pending, whether \<open>new WebSocket(url)\<close> throws for the configured
  url, and the trace. A timer handle is always truthy.
\<close>

record WSClient =
  ws :: "sock option"
  reconnectDelay :: nat
  reconnectTimer :: "timer option"
  connected :: bool
  destroyed :: bool
  onMessage :: "(PlayGuardCommand \<Rightarrow> unit outcome) option"
  sockets :: "readyState list"
  timers :: "timer list"
  next_timer :: timer
  url_throws :: bool
  trace :: "io list"

definition new_WSClient :: "nat \<Rightarrow> bool \<Rightarrow> WSClient" where
  "new_WSClient delay bad_url =
     \<lparr>ws = None, reconnectDelay = delay, reconnectTimer = None, connected = False,
      destroyed = False, onMessage = None, sockets = [], timers = [], next_timer = 1,
      url_throws = bad_url, trace = []\<rparr>"

definition connect_internal :: "WSClient \<Rightarrow> WSClient" where
  "connect_internal s =
     (if destroyed s then s
      else if url_throws s then s
      else s\<lparr>ws := Some (length (sockets s)), sockets := sockets s @ [CONNECTING],
             trace := trace s @ [Constructed (length (sockets s))]\<rparr>)"

definition connect :: "WSClient \<Rightarrow> WSClient" where
  "connect s = (if ws s \<noteq> None \<or> destroyed s then s else connect_internal s)"

definition onopen :: "WSClient \<Rightarrow> WSClient" where
  "onopen s = s\<lparr>connected := True, trace := trace s @ [NotifyConnected]\<rparr>"

definition onclose :: "WSClient \<Rightarrow> WSClient" where
  "onclose s =
     (let s1 = s\<lparr>connected := False, ws := None, trace := trace s @ [NotifyDisconnected]\<rparr>
      in if \<not> destroyed s1
         then s1\<lparr>reconnectTimer := Some (next_timer s1),
                 timers := timers s1 @ [next_timer s1],
                 next_timer := next_timer s1 + 1,
                 trace := trace s1 @ [Scheduled (next_timer s1) (reconnectDelay s1)]\<rparr>
         else s1)"

definition onerror :: "WSClient \<Rightarrow> WSClient" where
  "onerror s = s"

definition send :: "message \<Rightarrow> WSClient \<Rightarrow> WSClient" where
  "send m s =
     (case ws s of
        None \<Rightarrow> s
      | Some k \<Rightarrow>
          if k < length (sockets s) \<and> sockets s ! k = OPEN
          then s\<lparr>trace := trace s @ [Wrote k m]\<rparr>
          else s)"

definition isConnected :: "WSClient \<Rightarrow> bool" where
  "isConnected s = connected s"

text \<open>\<open>ws.close()\<close> starts the closing handshake of a socket that is not yet closing.\<close>

definition socket_close :: "sock \<Rightarrow> WSClient \<Rightarrow> WSClient" where
  "socket_close k s =
     (if k < length (sockets s) \<and> (sockets s ! k = OPEN \<or> sockets s ! k = CONNECTING)
      then s\<lparr>sockets := (sockets s)[k := CLOSING], trace := trace s @ [CloseCalled k]\<rparr>
      else s\<lparr>trace := trace s @ [CloseCalled k]\<rparr>)"

definition destroy :: "WSClient \<Rightarrow> WSClient" where
  "destroy s =
     (let s1 = s\<lparr>destroyed := True\<rparr>;
          s2 = (case reconnectTimer s1 of
                  None \<Rightarrow> s1
                | Some t \<Rightarrow> s1\<lparr>timers := removeAll t (timers s1), reconnectTimer := None,
                               trace := trace s1 @ [Cancelled t]\<rparr>);
          s3 = (case ws s2 of None \<Rightarrow> s2 | Some k \<Rightarrow> socket_close k s2)
      in s3\<lparr>ws := None, connected := False\<rparr>)"

text \<open>
  What can happen to a client: a call of one of its methods, an event of one of the
  sockets it constructed (each carries the handlers installed by \<open>_connect\<close>), or a
  pending timeout that fires and runs \<open>_connect\<close>.
\<close>

datatype event = Connect | Destroy | SendCall message
  | SocketOpen sock | SocketMessage sock string | SocketClose sock | SocketError sock
  | TimerFires timer

fun step :: "(string \<Rightarrow> PlayGuardCommand option) \<Rightarrow> event \<Rightarrow> WSClient \<Rightarrow> WSClient" where
  "step P Connect s = connect s"
| "step P Destroy s = destroy s"
| "step P (SendCall m) s = send m s"
| "step P (SocketOpen k) s =
     (if k < length (sockets s) \<and> sockets s ! k = CONNECTING
      then onopen (s\<lparr>sockets := (sockets s)[k := OPEN]\<rparr>) else s)"
| "step P (SocketMessage k d) s =
     (if k < length (sockets s) \<and> sockets s ! k = OPEN
      then s\<lparr>trace := trace s @ map Line (onmessage P (onMessage s) d)\<rparr> else s)"
| "step P (SocketClose k) s =
     (if k < length (sockets s) \<and> sockets s ! k \<noteq> CLOSED
      then onclose (s\<lparr>sockets := (sockets s)[k := CLOSED]\<rparr>) else s)"
| "step P (SocketError k) s = onerror s"
| "step P (TimerFires t) s =
     (if t \<in> set (timers s) then connect_internal (s\<lparr>timers := removeAll t (timers s)\<rparr>)
      else s)"

fun run :: "(string \<Rightarrow> PlayGuardCommand option) \<Rightarrow> event list \<Rightarrow> WSClient \<Rightarrow> WSClient" where
  "run P [] s = s"
| "run P (e # es) s = run P es (step P e s)"

text \<open>The trace entries that open a socket, schedule a reconnect, or write to a socket.\<close>

fun reconnects :: "io \<Rightarrow> bool" where
  "reconnects (Constructed k) = True"
| "reconnects (Scheduled t d) = True"
| "reconnects _ = False"

fun writes :: "io \<Rightarrow> bool" where
  "writes (Wrote k m) = True"
| "writes _ = False"

section \<open>Notions used in the statements\<close>

text \<open>\<open>lines.join('\n')\<close>, the inverse of the split.\<close>

fun join_lines :: "string list \<Rightarrow> string" where
  "join_lines [] = []"
| "join_lines [l] = l"
| "join_lines (l # ls) = l @ [CHR 0x0A] @ join_lines ls"

text \<open>
  The three ways a dispatch can end: one response (with \<open>data\<close> only on success and
  \<open>error\<close> exactly on failure), a synthetic tap followed by one success response, or a
  rejected promise with nothing sent.
\<close>

definition settled_result :: "string \<Rightarrow> string \<Rightarrow> effect list \<times> completion \<Rightarrow> bool" where
  "settled_result i c res =
     ((\<exists>s d e. res = (respond i c s d e, Fulfilled) \<and> (d \<noteq> None \<longrightarrow> s) \<and> ((e \<noteq> None) = (\<not> s)))
      \<or> (\<exists>target pos. res = (synthetic_tap target pos @ respond i c True None None, Fulfilled))
      \<or> (\<exists>e. res = ([], RejectedWith e)))"

text \<open>
  The SDK calls \<open>connect()\<close> once, from its constructor. From then on at most one socket
  is not closed, and it is the newest; a timeout is pending only while every socket is
  closed, and it is the one held in \<open>reconnectTimer\<close>.
\<close>

definition tidy :: "WSClient \<Rightarrow> bool" where
  "tidy s =
     (set (timers s) \<subseteq> set_option (reconnectTimer s)
      \<and> (\<forall>i<length (sockets s). sockets s ! i \<noteq> CLOSED
            \<longrightarrow> timers s = [] \<and> Suc i = length (sockets s)))"

fun is_Connect :: "event \<Rightarrow> bool" where
  "is_Connect Connect = True"
| "is_Connect _ = False"

section \<open>Concrete scenarios\<close>

text \<open>
  A page with one button, and a registry of three elements: one on the button, one that
  is currently absent, one at a point where the page has no node.
\<close>

definition tap_host :: host where
  "tap_host = \<lparr>elementFromPoint = (\<lambda>x y. if 0 \<le> x \<and> x \<le> 200 \<and> 0 \<le> y \<and> y \<le> 50 then Some 1 else None),
     tagName = (\<lambda>n. ''BUTTON''), node_contains = (\<lambda>a b. False)\<rparr>"

definition tap_sdk :: PlayGuardSDK where
  "tap_sdk = registerElement ''menu'' (Returns (Some \<lparr>pos_x = 300, pos_y = 400\<rparr>))
     (registerElement ''shop'' (Returns None)
       (registerElement ''play'' (Returns (Some \<lparr>pos_x = 100, pos_y = 25\<rparr>)) new_sdk))"

definition tap_cmd :: "string \<Rightarrow> PlayGuardCommand" where
  "tap_cmd n = \<lparr>cmd_id = ''42'', cmd_command = ''tapElement'',
     parameters = Some \<lparr>p_name = None, p_args = None, p_param = None, p_path = Some n\<rparr>\<rparr>"

text \<open>Registries with a position getter that throws.\<close>

definition throwing_sdk :: PlayGuardSDK where
  "throwing_sdk =
     registerElement ''broken'' (Throws ''Error: boom'')
       (registerElement ''play'' (Returns (Some \<lparr>pos_x = 100, pos_y = 25\<rparr>)) new_sdk)"

definition lone_sdk :: PlayGuardSDK where
  "lone_sdk = registerElement ''broken'' (Throws ''TypeError: rect is null'') new_sdk"

definition ui_cmd :: PlayGuardCommand where
  "ui_cmd = \<lparr>cmd_id = ''7'', cmd_command = ''getUIElements'', parameters = None\<rparr>"

text \<open>
  A page with a button (node 1), a panel (node 2) that contains a label (node 5), and a
  canvas (node 3) below them.
\<close>

definition dom_host :: host where
  "dom_host =
     \<lparr>elementFromPoint = (\<lambda>x y.
        if 0 \<le> x \<and> x \<le> 200 \<and> 0 \<le> y \<and> y \<le> 50 then Some 1
        else if 10 \<le> x \<and> x \<le> 30 \<and> 110 \<le> y \<and> y \<le> 130 then Some 5
        else if 0 \<le> x \<and> x \<le> 200 \<and> 100 \<le> y \<and> y \<le> 150 then Some 2
        else if 300 \<le> y then Some 3
        else None),
      tagName = (\<lambda>n. if n = 1 then ''BUTTON'' else if n = 3 then ''CANVAS'' else ''DIV''),
      node_contains = (\<lambda>a b. a = b \<or> (a = 2 \<and> b = 5))\<rparr>"

definition dom_sdk :: PlayGuardSDK where
  "dom_sdk =
     registerElement ''late'' (Throws ''Error: late'')
      (registerElement ''panel'' (Returns (Some \<lparr>pos_x = 150, pos_y = 140\<rparr>))
        (registerElement ''play'' (Returns (Some \<lparr>pos_x = 100, pos_y = 25\<rparr>))
          (registerElement ''art'' (Returns (Some \<lparr>pos_x = 50, pos_y = 350\<rparr>))
            (registerElement ''ghost'' (Returns None) new_sdk))))"

text \<open>A page that is one canvas, with two elements forty pixels apart.\<close>

definition canvas_host :: host where
  "canvas_host = \<lparr>elementFromPoint = (\<lambda>x y. Some 7), tagName = (\<lambda>n. ''CANVAS''),
     node_contains = (\<lambda>a b. a = b)\<rparr>"

definition canvas_sdk :: PlayGuardSDK where
  "canvas_sdk = registerElement ''hidden'' (Returns None)
     (registerElement ''lower'' (Returns (Some \<lparr>pos_x = 100, pos_y = 140\<rparr>))
       (registerElement ''upper'' (Returns (Some \<lparr>pos_x = 100, pos_y = 100\<rparr>)) new_sdk))"

text \<open>
  Two registries on that canvas where rounding decides. In the first, the element is
  nearer to the origin than 35 by less than \<open>2^(-48)\<close>. In the second, the element
  registered second is nearer to the origin than the first by less than \<open>2^(-51)\<close>.
\<close>

definition edge_sdk :: PlayGuardSDK where
  "edge_sdk = registerElement ''near'' (Returns (Some \<lparr>pos_x = 21, pos_y = 28 - 1 / 2 ^ 48\<rparr>))
     new_sdk"

definition tie_sdk :: PlayGuardSDK where
  "tie_sdk =
     registerElement ''second'' (Returns (Some \<lparr>pos_x = 3, pos_y = 4 - 1 / 2 ^ 51\<rparr>))
       (registerElement ''first'' (Returns (Some \<lparr>pos_x = 3, pos_y = 4\<rparr>)) new_sdk)"

text \<open>
  A stand-in for \<open>JSON.parse\<close> that accepts one document, the line
  \<open>{"type":"command","id":"1","command":"ping"}\<close>, and a frame of five lines.
\<close>

definition dq :: "string \<Rightarrow> string" where
  "dq s = [CHR 0x22] @ s @ [CHR 0x22]"

definition ping_line :: string where
  "ping_line = ''{'' @ dq ''type'' @ '':'' @ dq ''command'' @ '','' @ dq ''id'' @ '':''
     @ dq ''1'' @ '','' @ dq ''command'' @ '':'' @ dq ''ping'' @ ''}''"

definition ping_only :: "string \<Rightarrow> PlayGuardCommand option" where
  "ping_only l =
     (if l = ping_line then Some \<lparr>cmd_id = ''1'', cmd_command = ''ping'', parameters = None\<rparr>
      else None)"

definition quiet_handler :: "PlayGuardCommand \<Rightarrow> unit outcome" where
  "quiet_handler m = Returns ()"

definition mixed_frame :: string where
  "mixed_frame = ping_line @ [CHR 0x0A] @ ''  '' @ [CHR 0x0A] @ ''{oops''
     @ [CHR 0x0A] @ [CHR 0x0A] @ ping_line"

text \<open>
  Two clients: one whose only socket closed, so that one reconnect is pending; and one
  on its third socket, where \<open>connect()\<close> was called while a reconnect was pending, so
  that the timeout of the first reconnect is still pending beside the client.
\<close>

definition pong_reply :: message where
  "pong_reply = Response \<lparr>rsp_id = ''1'', rsp_command = ''ping'', success = True,
     data = Some Pong, error = None\<rparr>"

definition no_parse :: "string \<Rightarrow> PlayGuardCommand option" where
  "no_parse l = None"

definition quiet_client :: WSClient where
  "quiet_client = run no_parse [Connect, SocketOpen 0, SocketClose 0] (new_WSClient 2000 False)"

definition busy_client :: WSClient where
  "busy_client = run no_parse
     [Connect, SocketOpen 0, SendCall pong_reply, SocketClose 0, Connect, SocketClose 1,
      TimerFires 2, SocketOpen 2]
     (new_WSClient 2000 False)"

section \<open>The dispatcher: proofs\<close>

lemma responses_respond: "responses (respond i c s d e) =
    [\<lparr>rsp_id = i, rsp_command = c, success = s, data = d, error = e\<rparr>]"
  by (simp add: respond_def)

lemma handleCommand_tapElement:
  "cmd_command cmd = ''tapElement'' \<Longrightarrow> parameters cmd = Some ps \<Longrightarrow>
   handleCommand sdk h cmd = tapElement sdk h (cmd_id cmd) ''tapElement'' (p_path ps)"
  by (simp add: handleCommand_def or_empty_def)

lemma tap_sdk_elements: "elements tap_sdk = [(''play'', \<lparr>el_name = ''play'', getPosition = Returns (Some \<lparr>pos_x = 100, pos_y = 25\<rparr>)\<rparr>),
   (''shop'', \<lparr>el_name = ''shop'', getPosition = Returns None\<rparr>),
   (''menu'', \<lparr>el_name = ''menu'', getPosition = Returns (Some \<lparr>pos_x = 300, pos_y = 400\<rparr>)\<rparr>)]"
  by (simp add: tap_sdk_def registerElement_def new_sdk_def)

lemma throwing_sdk_elements: "elements throwing_sdk =
   [(''play'', \<lparr>el_name = ''play'', getPosition = Returns (Some \<lparr>pos_x = 100, pos_y = 25\<rparr>)\<rparr>),
    (''broken'', \<lparr>el_name = ''broken'', getPosition = Throws ''Error: boom''\<rparr>)]"
  by (simp add: throwing_sdk_def registerElement_def new_sdk_def)

subsection \<open>Every dispatch ends in one of three ways\<close>

lemma sr_ok: "settled_result i c (respond i c True d None, Fulfilled)"
  by (simp add: settled_result_def) blast

lemma sr_fail: "settled_result i c (respond i c False None (Some e), Fulfilled)"
  by (simp add: settled_result_def) blast

lemma sr_tap: "settled_result i c (synthetic_tap target pos @ respond i c True None None, Fulfilled)"
  by (simp add: settled_result_def) blast

lemma sr_rej: "settled_result i c ([], RejectedWith e)"
  by (simp add: settled_result_def)

lemma sr_tapElement: "settled_result i c (tapElement sdk h i c path)"
  by (simp add: tapElement_def sr_ok sr_fail sr_tap sr_rej split: option.splits outcome.splits)

lemma sr_if:
  "(b \<Longrightarrow> settled_result i c x) \<Longrightarrow> (\<not> b \<Longrightarrow> settled_result i c y)
   \<Longrightarrow> settled_result i c (if b then x else y)"
  by simp

lemma handleCommand_settled:
  "settled_result (cmd_id cmd) (cmd_command cmd) (handleCommand sdk h cmd)"
  unfolding handleCommand_def Let_def
  by (intro sr_if sr_ok sr_fail sr_tapElement)
    (simp_all only: sr_ok sr_fail sr_rej split: option.split outcome.split sum.split, simp_all)

lemma settled_responses:
  assumes "settled_result i c res"
  shows "length (responses (fst res)) \<le> 1
    \<and> (\<forall>r\<in>set (responses (fst res)). rsp_id r = i \<and> rsp_command r = c
          \<and> (data r \<noteq> None \<longrightarrow> success r) \<and> ((error r \<noteq> None) = (\<not> success r)))
    \<and> ((snd res = Fulfilled) = (length (responses (fst res)) = 1))"
  using assms unfolding settled_result_def
  by (elim disjE exE conjE) (simp_all add: respond_def synthetic_tap_def)

subsection \<open>With position getters that return, every command is answered once\<close>

lemma ui_elements_returning:
  "\<forall>el\<in>set els. returns (getPosition el) \<Longrightarrow>
   ui_elements els = Inr (map (\<lambda>el.
      \<lparr>ui_name = el_name el, ui_path = el_name el, ui_type = ''HTML5Element'', ui_active = True,
       ui_x = (case getPosition el of Returns (Some q) \<Rightarrow> pos_x q | _ \<Rightarrow> 0),
       ui_y = (case getPosition el of Returns (Some q) \<Rightarrow> pos_y q | _ \<Rightarrow> 0),
       ui_z = 0\<rparr>) els)"
proof (induction els)
  case Nil
  then show ?case by simp
next
  case (Cons el els)
  then show ?case by (cases "getPosition el") (auto split: option.splits)
qed

lemma getUIElements_when_getters_return:
  assumes "cmd_command cmd = ''getUIElements''"
    and "\<forall>q\<in>set (elements sdk). returns (getPosition (snd q))"
  shows "handleCommand sdk h cmd =
    ([Send (Response \<lparr>rsp_id = cmd_id cmd, rsp_command = ''getUIElements'', success = True,
        data = Some (ElementList (map (\<lambda>el.
          \<lparr>ui_name = el_name el, ui_path = el_name el, ui_type = ''HTML5Element'',
           ui_active = True,
           ui_x = (case getPosition el of Returns (Some q) \<Rightarrow> pos_x q | _ \<Rightarrow> 0),
           ui_y = (case getPosition el of Returns (Some q) \<Rightarrow> pos_y q | _ \<Rightarrow> 0),
           ui_z = 0\<rparr>) (map snd (elements sdk)))),
        error = None\<rparr>)], Fulfilled)"
proof -
  have "\<forall>el\<in>set (map snd (elements sdk)). returns (getPosition el)"
    using assms(2) by auto
  from ui_elements_returning [OF this] show ?thesis
    using assms(1) by (simp add: handleCommand_def Map_values_def respond_def)
qed

lemma fulfilled_if:
  "(b \<Longrightarrow> snd x = Fulfilled) \<Longrightarrow> (\<not> b \<Longrightarrow> snd y = Fulfilled)
   \<Longrightarrow> snd (if b then x else y) = Fulfilled"
  by simp

lemma tapElement_fulfilled:
  assumes "\<forall>q\<in>set (elements sdk). returns (getPosition (snd q))"
  shows "snd (tapElement sdk h i c path) = Fulfilled"
proof (cases "Map_get (elements sdk) path")
  case None
  then show ?thesis by (simp add: tapElement_def)
next
  case (Some el)
  then obtain n where "map_of (elements sdk) n = Some el" by (cases path) auto
  then have "(n, el) \<in> set (elements sdk)" by (rule map_of_SomeD)
  with assms have "returns (getPosition el)" by force
  with Some show ?thesis
    by (cases "getPosition el") (simp_all add: tapElement_def split: option.splits)
qed

lemma getUIElements_fulfilled:
  assumes "\<forall>q\<in>set (elements sdk). returns (getPosition (snd q))"
  shows "snd (case ui_elements (Map_values (elements sdk)) of
          Inl e \<Rightarrow> ([], RejectedWith e)
        | Inr us \<Rightarrow> (respond i c True (Some (ElementList us)) None, Fulfilled)) = Fulfilled"
proof -
  have "\<forall>el\<in>set (Map_values (elements sdk)). returns (getPosition el)"
    using assms by (auto simp: Map_values_def)
  from ui_elements_returning [OF this] show ?thesis by simp
qed

lemma handleCommand_fulfilled:
  assumes "\<forall>q\<in>set (elements sdk). returns (getPosition (snd q))"
  shows "snd (handleCommand sdk h cmd) = Fulfilled"
  unfolding handleCommand_def Let_def
  by (intro fulfilled_if tapElement_fulfilled [OF assms] getUIElements_fulfilled [OF assms])
    (simp_all split: option.split outcome.split sum.split)

lemma handleCommand_exactly_one:
  assumes "\<forall>q\<in>set (elements sdk). returns (getPosition (snd q))"
  shows "\<exists>r. responses (fst (handleCommand sdk h cmd)) = [r]
    \<and> rsp_id r = cmd_id cmd \<and> rsp_command r = cmd_command cmd
    \<and> (data r \<noteq> None \<longrightarrow> success r) \<and> ((error r \<noteq> None) = (\<not> success r))"
proof -
  from settled_responses [OF handleCommand_settled [of cmd sdk h]]
    handleCommand_fulfilled [OF assms, of h cmd]
  have len: "length (responses (fst (handleCommand sdk h cmd))) = 1"
    and shape: "\<forall>r\<in>set (responses (fst (handleCommand sdk h cmd))).
      rsp_id r = cmd_id cmd \<and> rsp_command r = cmd_command cmd
      \<and> (data r \<noteq> None \<longrightarrow> success r) \<and> ((error r \<noteq> None) = (\<not> success r))"
    by simp_all
  from len obtain r where "responses (fst (handleCommand sdk h cmd)) = [r]"
    by (cases "responses (fst (handleCommand sdk h cmd))") auto
  with shape show ?thesis by simp
qed

subsection \<open>A position getter that throws\<close>

text \<open>
  Claim C1: for every inbound command exactly one response is sent, echoing \<open>id\<close> and
  \<open>command\<close>, with \<open>data\<close> only on success and \<open>error\<close> only on failure.
  The shape of a response and the bound of one response hold for every dispatch
  (\<open>handleCommand_settled\<close>, \<open>settled_responses\<close>), and exactly one response is sent
  whenever the position getters return (\<open>handleCommand_exactly_one\<close>). The theorem
  evaluates the dispatcher where the count fails: \<open>tapElement\<close> calls the element's
  position getter outside any \<open>try\<close>, so a getter that throws leaves the command
  without a response.
\<close>

theorem tapElement_throwing_getter_no_response:
  "handleCommand throwing_sdk tap_host (tap_cmd ''broken'') = ([], RejectedWith ''Error: boom'')
   \<and> responses (fst (handleCommand throwing_sdk tap_host (tap_cmd ''broken''))) = []"
  by (simp add: handleCommand_def tapElement_def tap_cmd_def throwing_sdk_elements or_empty_def)

text \<open>
  Claim C2: whatever a registered handler or getter does, the dispatcher catches the
  exception and sends a failure response with the stringified error, and no exception
  leaves the dispatcher. The property getter and the action and command handlers are
  called inside \<open>try\<close>; the position getters in \<open>getUIElements\<close> and \<open>tapElement\<close> are
  not. The theorem evaluates \<open>getUIElements\<close> with a getter that throws: nothing is sent
  and the promise of \<open>handleCommand\<close> is rejected with the thrown value.
\<close>

theorem getUIElements_throwing_getter_uncaught:
  "handleCommand throwing_sdk tap_host ui_cmd = ([], RejectedWith ''Error: boom'')"
  by (simp add: handleCommand_def ui_cmd_def throwing_sdk_elements Map_values_def)

text \<open>
  Claim C7: \<open>getUIElements\<close> never fails and returns one entry per registered element,
  with \<open>{x: 0, y: 0}\<close> for a getter that returns \<open>null\<close>. That is what the command does
  when every position getter returns (\<open>getUIElements_when_getters_return\<close>). The theorem
  evaluates it on a registry whose only element has a getter that throws: no response,
  neither a success nor a failure.
\<close>

theorem getUIElements_fails_without_response:
  "responses (fst (handleCommand lone_sdk tap_host ui_cmd)) = []
   \<and> snd (handleCommand lone_sdk tap_host ui_cmd) = RejectedWith ''TypeError: rect is null''"
  by (simp add: handleCommand_def ui_cmd_def lone_sdk_def registerElement_def new_sdk_def
      Map_values_def)

subsection \<open>Synthetic taps\<close>

text \<open>
  Claim C8, as amended: \<open>tapElement\<close> with an element name answers \<open>success: false\<close> when
  the name is not registered; answers \<open>success: false\<close> and dispatches nothing when the
  getter returns \<open>null\<close>; when the getter returns a position and a node occupies it,
  dispatches to that node a pointer-down, a pointer-up and a click, in this order, each
  with \<open>bubbles\<close> set and the position as \<open>clientX\<close> and \<open>clientY\<close>, and then answers
  \<open>success: true\<close>; and when no node occupies the position, dispatches nothing and
  still answers \<open>success: true\<close>.
\<close>

theorem tapElement_cases:
  assumes "cmd_command cmd = ''tapElement''" and "parameters cmd = Some ps"
    and "p_path ps = Some n"
  shows "(map_of (elements sdk) n = None \<longrightarrow>
            handleCommand sdk h cmd =
              ([Send (Response \<lparr>rsp_id = cmd_id cmd, rsp_command = ''tapElement'',
                  success = False, data = None,
                  error = Some (''Element '' @ quoted (Some n) @ '' not registered'')\<rparr>)],
               Fulfilled))
    \<and> (\<forall>el. map_of (elements sdk) n = Some el \<and> getPosition el = Returns None \<longrightarrow>
            handleCommand sdk h cmd =
              ([Send (Response \<lparr>rsp_id = cmd_id cmd, rsp_command = ''tapElement'',
                  success = False, data = None,
                  error = Some (''Element '' @ quoted (Some n) @ '' returned null position'')\<rparr>)],
               Fulfilled))
    \<and> (\<forall>el pos target. map_of (elements sdk) n = Some el
            \<and> getPosition el = Returns (Some pos)
            \<and> elementFromPoint h (pos_x pos) (pos_y pos) = Some target \<longrightarrow>
            handleCommand sdk h cmd =
              ([DispatchEvent target \<lparr>ev_class = ''PointerEvent'', ev_type = ''pointerdown'',
                  bubbles = True, clientX = pos_x pos, clientY = pos_y pos\<rparr>,
                DispatchEvent target \<lparr>ev_class = ''PointerEvent'', ev_type = ''pointerup'',
                  bubbles = True, clientX = pos_x pos, clientY = pos_y pos\<rparr>,
                DispatchEvent target \<lparr>ev_class = ''MouseEvent'', ev_type = ''click'',
                  bubbles = True, clientX = pos_x pos, clientY = pos_y pos\<rparr>,
                Send (Response \<lparr>rsp_id = cmd_id cmd, rsp_command = ''tapElement'',
                  success = True, data = None, error = None\<rparr>)],
               Fulfilled))
    \<and> (\<forall>el pos. map_of (elements sdk) n = Some el
            \<and> getPosition el = Returns (Some pos)
            \<and> elementFromPoint h (pos_x pos) (pos_y pos) = None \<longrightarrow>
            handleCommand sdk h cmd =
              ([Send (Response \<lparr>rsp_id = cmd_id cmd, rsp_command = ''tapElement'',
                  success = True, data = None, error = None\<rparr>)],
               Fulfilled))"
  using assms
  by (simp add: handleCommand_tapElement tapElement_def respond_def synthetic_tap_def)

theorem tapElement_cases_witness:
  "handleCommand tap_sdk tap_host (tap_cmd ''play'') =
     ([DispatchEvent 1 \<lparr>ev_class = ''PointerEvent'', ev_type = ''pointerdown'',
         bubbles = True, clientX = 100, clientY = 25\<rparr>,
       DispatchEvent 1 \<lparr>ev_class = ''PointerEvent'', ev_type = ''pointerup'',
         bubbles = True, clientX = 100, clientY = 25\<rparr>,
       DispatchEvent 1 \<lparr>ev_class = ''MouseEvent'', ev_type = ''click'',
         bubbles = True, clientX = 100, clientY = 25\<rparr>,
       Send (Response \<lparr>rsp_id = ''42'', rsp_command = ''tapElement'', success = True,
         data = None, error = None\<rparr>)], Fulfilled)
   \<and> map success (responses (fst (handleCommand tap_sdk tap_host (tap_cmd ''shop'')))) = [False]
   \<and> dispatched (fst (handleCommand tap_sdk tap_host (tap_cmd ''shop''))) = []
   \<and> map success (responses (fst (handleCommand tap_sdk tap_host (tap_cmd ''nowhere'')))) = [False]"
proof -
  let ?ps = "\<lambda>n. \<lparr>p_name = None, p_args = None, p_param = None, p_path = Some n\<rparr>"
  have c: "cmd_command (tap_cmd n) = ''tapElement''" "parameters (tap_cmd n) = Some (?ps n)"
    "p_path (?ps n) = Some n" for n
    by (simp_all add: tap_cmd_def)
  have i: "cmd_id (tap_cmd n) = ''42''" for n by (simp add: tap_cmd_def)
  from tapElement_cases [OF c [of "''play''"], where sdk = tap_sdk and h = tap_host]
    tapElement_cases [OF c [of "''shop''"], where sdk = tap_sdk and h = tap_host]
    tapElement_cases [OF c [of "''nowhere''"], where sdk = tap_sdk and h = tap_host]
  show ?thesis
    by (simp add: tap_sdk_elements tap_host_def i)
qed

text \<open>
  The claim as it was stated promises the three events whenever the getter returns a
  position. The element \<open>menu\<close> is registered at a point where the page has no node:
  the command succeeds and nothing is dispatched.
\<close>

theorem tapElement_dispatch_counterexample:
  "map_of (elements tap_sdk) ''menu''
      = Some \<lparr>el_name = ''menu'', getPosition = Returns (Some \<lparr>pos_x = 300, pos_y = 400\<rparr>)\<rparr>
   \<and> map success (responses (fst (handleCommand tap_sdk tap_host (tap_cmd ''menu'')))) = [True]
   \<and> dispatched (fst (handleCommand tap_sdk tap_host (tap_cmd ''menu''))) = []"
  by (simp add: tap_sdk_elements tap_cmd_def tap_host_def handleCommand_def tapElement_def
      respond_def or_empty_def)

text \<open>
  Claim C10: when the element is registered, its getter returns a position and the
  hit test at that position returns \<open>null\<close>, \<open>tapElement\<close> answers \<open>success: true\<close> and
  dispatches no pointer-down, pointer-up or click.
\<close>

theorem tapElement_without_node:
  assumes "cmd_command cmd = ''tapElement''" and "parameters cmd = Some ps"
    and "p_path ps = Some n" and "map_of (elements sdk) n = Some el"
    and "getPosition el = Returns (Some pos)"
    and "elementFromPoint h (pos_x pos) (pos_y pos) = None"
  shows "handleCommand sdk h cmd =
      ([Send (Response \<lparr>rsp_id = cmd_id cmd, rsp_command = ''tapElement'', success = True,
          data = None, error = None\<rparr>)], Fulfilled)
    \<and> dispatched (fst (handleCommand sdk h cmd)) = []"
  using assms by (simp add: handleCommand_tapElement tapElement_def respond_def)

theorem tapElement_without_node_witness:
  "handleCommand tap_sdk tap_host (tap_cmd ''menu'') =
      ([Send (Response \<lparr>rsp_id = ''42'', rsp_command = ''tapElement'', success = True,
          data = None, error = None\<rparr>)], Fulfilled)
    \<and> dispatched (fst (handleCommand tap_sdk tap_host (tap_cmd ''menu''))) = []"
  using tapElement_without_node [of "tap_cmd ''menu''"
      "\<lparr>p_name = None, p_args = None, p_param = None, p_path = Some ''menu''\<rparr>" "''menu''" tap_sdk
      "\<lparr>el_name = ''menu'', getPosition = Returns (Some \<lparr>pos_x = 300, pos_y = 400\<rparr>)\<rparr>"
      "\<lparr>pos_x = 300, pos_y = 400\<rparr>" tap_host]
  by (simp add: tap_cmd_def tap_sdk_elements tap_host_def)

subsection \<open>Explicit notification\<close>

text \<open>
  Claim C9: \<open>notifyTapped(name)\<close> hands exactly one \<open>elementTapped\<close> event to the
  transport, with the data \<open>{element: name, matchType: 'explicit'}\<close>. The result does not
  depend on the registry: no position is read, and the name need not be registered.
\<close>

theorem notifyTapped_explicit:
  "notifyTapped sdk n =
     [Send (Event ''elementTapped''
        \<lparr>element = n, matchType = ''explicit'', tapX = None, tapY = None, elementX = None,
         elementY = None, dist = None\<rparr>)]"
  by (simp add: notifyTapped_def sendEvent_def)

theorem notifyTapped_explicit_witness:
  "notifyTapped new_sdk ''coinButton'' =
     [Send (Event ''elementTapped''
        \<lparr>element = ''coinButton'', matchType = ''explicit'', tapX = None, tapY = None,
         elementX = None, elementY = None, dist = None\<rparr>)]
   \<and> Map_get (elements new_sdk) (Some ''coinButton'') = None"
  using notifyTapped_explicit [of new_sdk "''coinButton''"] by (simp add: new_sdk_def)

section \<open>Tap routing: proofs\<close>

subsection \<open>Rounding to a double\<close>

lemma pow2_powr: "pow2 e = 2 powr (of_int e)"
  by (simp add: pow2_def powr_real_of_int)

lemma pow2_pos [simp]: "0 < pow2 e"
  by (simp add: pow2_powr)

lemma pow2_not_le [simp]: "\<not> pow2 e \<le> 0"
  using pow2_pos [of e] by linarith

lemma abs_pow2 [simp]: "\<bar>pow2 e\<bar> = pow2 e"
  using pow2_pos [of e] by linarith

lemma pow2_nonzero [simp]: "pow2 e \<noteq> 0"
  using pow2_pos [of e] by linarith

lemma pow2_add: "pow2 (a + b) = pow2 a * pow2 b"
  by (simp add: pow2_powr powr_add)

lemma pow2_mono: "a \<le> b \<Longrightarrow> pow2 a \<le> pow2 b"
  by (simp add: pow2_powr)

lemma pow2_nonneg [simp]: "0 \<le> pow2 e"
  using pow2_pos [of e] by linarith

lemma pow2_less_iff: "pow2 a < pow2 b \<longleftrightarrow> a < b"
  by (simp add: pow2_powr)

lemma pow2_nonneg_int: "0 \<le> k \<Longrightarrow> pow2 k = of_int (2 ^ nat k)"
  by (simp add: pow2_def)

lemma round_ties_even_int [simp]: "round_ties_even (of_int n) = n"
  by (simp add: round_ties_even_def)

lemma round_ties_even_near:
  assumes "\<bar>q - of_int n\<bar> < 1 / 2"
  shows "round_ties_even q = n"
proof (cases "of_int n \<le> q")
  case True
  with assms have "\<lfloor>q\<rfloor> = n" by (intro floor_unique) auto
  with assms True show ?thesis by (simp add: round_ties_even_def)
next
  case False
  with assms have "\<lfloor>q\<rfloor> = n - 1" by (intro floor_unique) auto
  with assms False show ?thesis by (auto simp: round_ties_even_def Let_def)
qed

lemma round_ties_even_ge: "of_int n \<le> q \<Longrightarrow> n \<le> round_ties_even q"
proof -
  assume "of_int n \<le> q"
  then have "n \<le> \<lfloor>q\<rfloor>" by (simp add: le_floor_iff)
  then show ?thesis by (auto simp: round_ties_even_def Let_def)
qed

lemma round_ties_even_le: "q \<le> of_int n \<Longrightarrow> round_ties_even q \<le> n"
proof (cases "q = of_int n")
  case True
  then show ?thesis by simp
next
  case False
  assume "q \<le> of_int n"
  with False have "q < of_int n" by simp
  then have "\<lfloor>q\<rfloor> < n" by (simp add: floor_less_iff)
  then show ?thesis by (auto simp: round_ties_even_def Let_def)
qed

lemma floor_log2:
  assumes "pow2 E \<le> x" and "x < pow2 (E + 1)"
  shows "\<lfloor>log 2 x\<rfloor> = E"
proof -
  have "0 < x" using assms(1) pow2_pos [of E] by linarith
  then show ?thesis
    using assms by (simp add: floor_log_eq_powr_iff pow2_powr)
qed

text \<open>
  A value within half a unit of a multiple of the unit of its binade rounds to that
  multiple; a value that is a double is left as it is; a value of at least \<open>2^1024\<close>
  becomes \<open>Infinity\<close>.
\<close>

lemma to_double_near:
  assumes "pow2 E \<le> \<bar>x\<bar>" and "\<bar>x\<bar> < pow2 (E + 1)" and "- 1022 \<le> E"
    and "\<bar>x / pow2 (E - 52) - of_int n\<bar> < 1 / 2"
    and "\<bar>of_int n * pow2 (E - 52)\<bar> < Infinity"
  shows "to_double x = of_int n * pow2 (E - 52)"
proof -
  have nz: "x \<noteq> 0" using assms(1) pow2_pos [of E] by auto
  have fl: "\<lfloor>log 2 \<bar>x\<bar>\<rfloor> = E" using assms(1,2) by (rule floor_log2)
  have e: "max (E - 52) (- 1074) = E - 52" using assms(3) by simp
  from assms(4) have r: "round_ties_even (x / pow2 (E - 52)) = n"
    by (rule round_ties_even_near)
  show ?thesis using nz assms(5) by (simp add: to_double_def fl e r Let_def)
qed

lemma to_double_exact:
  assumes "x = of_int m * pow2 k" and "\<bar>m\<bar> < 2 ^ 53" and "- 1074 \<le> k" and "k \<le> 971"
  shows "to_double x = x"
proof (cases "x = 0")
  case True
  then show ?thesis by (simp add: to_double_def)
next
  case False
  define E where "E = \<lfloor>log 2 \<bar>x\<bar>\<rfloor>"
  define e where "e = max (E - 52) (- 1074)"
  have xpos: "0 < \<bar>x\<bar>" using False by simp
  have "\<bar>x\<bar> = of_int \<bar>m\<bar> * pow2 k" by (simp add: assms(1) abs_mult)
  also have "\<dots> < of_int (2 ^ 53) * pow2 k"
    using assms(2) by (intro mult_strict_right_mono) (simp_all del: of_int_power)
  also have "\<dots> = pow2 53 * pow2 k" by (simp add: pow2_def)
  also have "\<dots> = pow2 (53 + k)" by (simp only: pow2_add)
  finally have lt: "\<bar>x\<bar> < pow2 (53 + k)" .
  have "pow2 E \<le> \<bar>x\<bar>"
    using xpos floor_log_eq_powr_iff [of "\<bar>x\<bar>" 2 E] by (simp add: E_def pow2_powr)
  with lt have "pow2 E < pow2 (53 + k)" by linarith
  then have "E < 53 + k" by (simp add: pow2_powr)
  then have ek: "e \<le> k" using assms(3) by (simp add: e_def)
  then have "pow2 k = pow2 (k - e) * pow2 e" by (simp add: pow2_add [symmetric])
  then have q: "x / pow2 e = of_int (m * 2 ^ nat (k - e))"
    using ek by (simp add: assms(1) pow2_nonneg_int)
  have r: "of_int (round_ties_even (x / pow2 e)) * pow2 e = x"
    unfolding q round_ties_even_int using q by (simp add: field_simps)
  have "pow2 (53 + k) \<le> pow2 1024" using assms(4) by (intro pow2_mono) simp
  also have "pow2 1024 = Infinity" by (simp add: pow2_def Infinity_def)
  finally have "\<bar>x\<bar> < Infinity" using lt by linarith
  then show ?thesis
    using False r by (simp add: to_double_def Let_def E_def [symmetric] e_def [symmetric])
qed

lemma to_double_int: "\<bar>m\<bar> < 2 ^ 53 \<Longrightarrow> to_double (of_int m) = of_int m"
  using to_double_exact [of "of_int m" m 0] by (simp add: pow2_def)

lemma to_double_numeral:
  "numeral w < (2::int) ^ 53 \<Longrightarrow> to_double (numeral w) = numeral w"
  "numeral w < (2::int) ^ 53 \<Longrightarrow> to_double (- numeral w) = - numeral w"
  using to_double_int [of "numeral w"] to_double_int [of "- numeral w"] by simp_all

lemma to_double_zero [simp]: "to_double 0 = 0"
  by (simp add: to_double_def)

lemma to_double_overflow:
  assumes "Infinity \<le> \<bar>x\<bar>"
  shows "to_double x = sgn x * Infinity"
proof -
  define E where "E = \<lfloor>log 2 \<bar>x\<bar>\<rfloor>"
  have inf: "Infinity = pow2 1024" by (simp add: pow2_def Infinity_def)
  have xpos: "0 < \<bar>x\<bar>" using assms pow2_pos [of 1024] unfolding inf by linarith
  then have nz: "x \<noteq> 0" by simp
  have lo: "pow2 E \<le> \<bar>x\<bar>" and hi: "\<bar>x\<bar> < pow2 (E + 1)"
    using xpos floor_log_eq_powr_iff [of "\<bar>x\<bar>" 2 E] by (simp_all add: E_def pow2_powr)
  from assms hi have "pow2 1024 < pow2 (E + 1)" unfolding inf by linarith
  then have "1024 < E + 1" by (simp only: pow2_less_iff)
  then have E: "1024 \<le> E" by simp
  then have e: "max (E - 52) (- 1074) = E - 52" by simp
  have split: "pow2 E = pow2 52 * pow2 (E - 52)" by (simp add: pow2_add [symmetric])
  have p52: "pow2 52 = of_int (2 ^ 52)" by (simp add: pow2_def)
  have "pow2 52 \<le> \<bar>x\<bar> / pow2 (E - 52)"
    using lo by (simp add: split pos_le_divide_eq)
  then have q: "of_int (2 ^ 52) \<le> \<bar>x / pow2 (E - 52)\<bar>" by (simp add: p52 abs_divide)
  have "(2::int) ^ 52 \<le> \<bar>round_ties_even (x / pow2 (E - 52))\<bar>"
  proof (cases "0 \<le> x")
    case True
    with q have "of_int (2 ^ 52) \<le> x / pow2 (E - 52)" by simp
    from round_ties_even_ge [OF this] show ?thesis by simp
  next
    case False
    then have "\<bar>x / pow2 (E - 52)\<bar> = - (x / pow2 (E - 52))"
      by (simp add: abs_divide)
    with q have "x / pow2 (E - 52) \<le> of_int (- (2 ^ 52))" by simp
    from round_ties_even_le [OF this] show ?thesis by simp
  qed
  then have "of_int (2 ^ 52) \<le> (of_int \<bar>round_ties_even (x / pow2 (E - 52))\<bar> :: real)"
    by (simp only: of_int_le_iff)
  then have "pow2 52 * pow2 (E - 52)
      \<le> \<bar>of_int (round_ties_even (x / pow2 (E - 52)))\<bar> * pow2 (E - 52)"
    unfolding p52 by (intro mult_right_mono) simp_all
  then have "pow2 E \<le> \<bar>of_int (round_ties_even (x / pow2 (E - 52))) * pow2 (E - 52)\<bar>"
    by (simp add: split abs_mult)
  moreover have "pow2 1024 \<le> pow2 E" using E by (rule pow2_mono)
  ultimately have "Infinity \<le> \<bar>of_int (round_ties_even (x / pow2 (E - 52))) * pow2 (E - 52)\<bar>"
    unfolding inf by linarith
  then show ?thesis
    using nz by (simp add: to_double_def Let_def E_def [symmetric] e)
qed

text \<open>
  The square root rounds to the double \<open>a\<close> when its argument lies strictly between
  the squares of the two midpoints around \<open>a\<close>.
\<close>

lemma Math_sqrt_near:
  assumes "0 \<le> a" and "a = of_int n * pow2 (E - 52)" and "pow2 E \<le> a - pow2 (E - 53)"
    and "a + pow2 (E - 53) \<le> pow2 (E + 1)" and "- 1022 \<le> E" and "E \<le> 511"
    and "(a - pow2 (E - 53))\<^sup>2 < v" and "v < (a + pow2 (E - 53))\<^sup>2"
  shows "Math_sqrt v = a"
proof -
  have h: "pow2 (E - 53) * 2 = pow2 (E - 52)"
    using pow2_add [of "E - 53" 1] by (simp add: pow2_def)
  have lo0: "0 \<le> a - pow2 (E - 53)"
    using assms(3) pow2_pos [of E] by linarith
  from assms(7) lo0 have lo: "a - pow2 (E - 53) < sqrt v"
    by (intro real_less_rsqrt) simp
  have vpos: "0 < v" using assms(7) zero_le_power2 [of "a - pow2 (E - 53)"] by linarith
  have hi0: "0 < a + pow2 (E - 53)" using assms(1) pow2_pos [of "E - 53"] by linarith
  from assms(8) have hi: "sqrt v < a + pow2 (E - 53)"
    using hi0 by (intro real_less_lsqrt) simp_all
  have b1: "pow2 E \<le> \<bar>sqrt v\<bar>" using lo assms(3) by linarith
  have b2: "\<bar>sqrt v\<bar> < pow2 (E + 1)" using hi assms(4) vpos by simp
  have "\<bar>sqrt v - a\<bar> < pow2 (E - 53)" using lo hi by linarith
  then have "\<bar>sqrt v - a\<bar> / pow2 (E - 52) < pow2 (E - 53) / pow2 (E - 52)"
    by (intro divide_strict_right_mono) simp_all
  also have "pow2 (E - 53) / pow2 (E - 52) = 1 / 2" using h [symmetric] by simp
  finally have "\<bar>(sqrt v - a) / pow2 (E - 52)\<bar> < 1 / 2" by (simp add: abs_divide)
  then have near: "\<bar>sqrt v / pow2 (E - 52) - of_int n\<bar> < 1 / 2"
    by (simp add: assms(2) diff_divide_distrib)
  have "a < pow2 (E + 1)" using assms(4) pow2_pos [of "E - 53"] by linarith
  also have "pow2 (E + 1) \<le> pow2 1024" using assms(6) by (intro pow2_mono) simp
  also have "pow2 1024 = Infinity" by (simp add: pow2_def Infinity_def)
  finally have fin: "\<bar>of_int n * pow2 (E - 52)\<bar> < Infinity"
    using assms(1,2) by simp
  have "sqrt v < Infinity"
    using b2 \<open>pow2 (E + 1) \<le> pow2 1024\<close> \<open>pow2 1024 = Infinity\<close> by linarith
  then have "v < Infinity"
  proof -
    have "v < (a + pow2 (E - 53))\<^sup>2" by (rule assms(8))
    also have "\<dots> \<le> (pow2 (E + 1))\<^sup>2" using assms(4) hi0 by (intro power_mono) simp_all
    also have "\<dots> = pow2 (2 * E + 2)" using pow2_add [of "E + 1" "E + 1"] by (simp add: power2_eq_square algebra_simps)
    also have "\<dots> \<le> pow2 1024" using assms(6) by (intro pow2_mono) simp
    finally show ?thesis by (simp add: pow2_def Infinity_def)
  qed
  then show ?thesis
    using to_double_near [OF b1 b2 assms(5) near fin] assms(2) by (simp add: Math_sqrt_def)
qed

text \<open>The computed distance in the scenarios, and the exact one where it differs.\<close>

lemma euclid_small:
  "euclid 100 120 \<lparr>pos_x = 100, pos_y = 100\<rparr> = 20"
  "euclid 100 120 \<lparr>pos_x = 100, pos_y = 140\<rparr> = 20"
  "euclid 100 180 \<lparr>pos_x = 100, pos_y = 100\<rparr> = 80"
  "euclid 100 180 \<lparr>pos_x = 100, pos_y = 140\<rparr> = 40"
  by (simp_all add: euclid_def Number_subtract_def Number_square_def Number_add_def
      Math_sqrt_def Infinity_def to_double_numeral)

lemma euclid_edge: "euclid 0 0 \<lparr>pos_x = 21, pos_y = 28 - 1 / 2 ^ 48\<rparr> = 35"
proof -
  let ?y = "28 - 1 / 2 ^ 48 :: real"
  have s2: "to_double ?y = ?y"
    by (rule to_double_exact [of _ "28 * 2 ^ 48 - 1" "- 48"]) (simp_all add: pow2_def)
  have s4: "to_double (?y * ?y) = 784 - 1 / 2 ^ 42"
    using to_double_near [of 9 "?y * ?y" "784 * 2 ^ 43 - 2"]
    by (simp add: pow2_def Infinity_def)
  have s5: "to_double (441 + (784 - 1 / 2 ^ 42)) = 1225 - 1 / 2 ^ 42"
    using to_double_exact [of "1225 - 1 / 2 ^ 42" "1225 * 2 ^ 42 - 1" "- 42"]
    by (simp add: pow2_def)
  have s6: "Math_sqrt (1225 - 1 / 2 ^ 42) = 35"
    by (rule Math_sqrt_near [of 35 "35 * 2 ^ 47" 5]) (simp_all add: pow2_def power2_eq_square)
  have a1: "Number_subtract 21 0 = 21"
    by (simp add: Number_subtract_def to_double_numeral)
  have a2: "Number_subtract ?y 0 = ?y"
    unfolding Number_subtract_def using s2 by simp
  have a3: "Number_square 21 = 441"
    by (simp add: Number_square_def to_double_numeral)
  have a4: "Number_square ?y = 784 - 1 / 2 ^ 42"
    unfolding Number_square_def using s4 by simp
  have a5: "Number_add 441 (784 - 1 / 2 ^ 42) = 1225 - 1 / 2 ^ 42"
    unfolding Number_add_def using s5 by simp
  show ?thesis
    by (simp only: euclid_def position.select_convs a1 a2 a3 a4 a5 s6)
qed

lemma euclid_tie:
  "euclid 0 0 \<lparr>pos_x = 3, pos_y = 4\<rparr> = 5"
  "euclid 0 0 \<lparr>pos_x = 3, pos_y = 4 - 1 / 2 ^ 51\<rparr> = 5"
proof -
  show "euclid 0 0 \<lparr>pos_x = 3, pos_y = 4\<rparr> = 5"
    by (simp add: euclid_def Number_subtract_def Number_square_def Number_add_def
        Math_sqrt_def Infinity_def to_double_numeral)
  let ?z = "4 - 1 / 2 ^ 51 :: real"
  have s2: "to_double ?z = ?z"
    by (rule to_double_exact [of _ "4 * 2 ^ 51 - 1" "- 51"]) (simp_all add: pow2_def)
  have s4: "to_double (?z * ?z) = 16 - 1 / 2 ^ 48"
    using to_double_near [of 3 "?z * ?z" "16 * 2 ^ 49 - 2"]
    by (simp add: pow2_def Infinity_def)
  have s5: "to_double (9 + (16 - 1 / 2 ^ 48)) = 25 - 1 / 2 ^ 48"
    using to_double_exact [of "25 - 1 / 2 ^ 48" "25 * 2 ^ 48 - 1" "- 48"]
    by (simp add: pow2_def)
  have s6: "Math_sqrt (25 - 1 / 2 ^ 48) = 5"
    by (rule Math_sqrt_near [of 5 "5 * 2 ^ 50" 2]) (simp_all add: pow2_def power2_eq_square)
  have a1: "Number_subtract 3 0 = 3"
    by (simp add: Number_subtract_def to_double_numeral)
  have a2: "Number_subtract ?z 0 = ?z"
    unfolding Number_subtract_def using s2 by simp
  have a3: "Number_square 3 = 9"
    by (simp add: Number_square_def to_double_numeral)
  have a4: "Number_square ?z = 16 - 1 / 2 ^ 48"
    unfolding Number_square_def using s4 by simp
  have a5: "Number_add 9 (16 - 1 / 2 ^ 48) = 25 - 1 / 2 ^ 48"
    unfolding Number_add_def using s5 by simp
  show "euclid 0 0 \<lparr>pos_x = 3, pos_y = 4 - 1 / 2 ^ 51\<rparr> = 5"
    by (simp only: euclid_def position.select_convs a1 a2 a3 a4 a5 s6)
qed

lemma exact_edge:
  "euclidean_distance 0 0 \<lparr>pos_x = 21, pos_y = 28 - 1 / 2 ^ 48\<rparr> < 35"
proof -
  have "sqrt (21\<^sup>2 + (28 - 1 / 2 ^ 48)\<^sup>2) < sqrt (35\<^sup>2)"
    by (subst real_sqrt_less_iff) (simp add: power2_eq_square)
  then show ?thesis by (simp add: euclidean_distance_def)
qed

lemma exact_tie:
  "euclidean_distance 0 0 \<lparr>pos_x = 3, pos_y = 4 - 1 / 2 ^ 51\<rparr>
     < euclidean_distance 0 0 \<lparr>pos_x = 3, pos_y = 4\<rparr>"
  unfolding euclidean_distance_def
  by (subst real_sqrt_less_iff) (simp add: power2_eq_square)

subsection \<open>The canvas branch\<close>

lemma canvas_scan_keep:
  assumes "\<forall>q\<in>set es. returns (getPosition (snd q))"
    and "\<forall>q\<in>set (positioned es). \<not> euclid X Y (snd q) < closestDist c"
  shows "canvas_scan X Y es c = Inr c"
  using assms
proof (induction es)
  case Nil
  then show ?case by simp
next
  case (Cons a es)
  obtain n el where a: "a = (n, el)" by (cases a)
  from Cons.prems(1) have "returns (getPosition el)" by (simp add: a)
  then consider "getPosition el = Returns None" | pos where "getPosition el = Returns (Some pos)"
    by (cases "getPosition el") auto
  then show ?case
  proof cases
    case 1
    with Cons show ?thesis by (simp add: a)
  next
    case 2
    with Cons show ?thesis by (simp add: a)
  qed
qed

lemma canvas_scan_pick:
  assumes "\<forall>q\<in>set es. returns (getPosition (snd q))"
    and "\<exists>q\<in>set (positioned es). euclid X Y (snd q) < closestDist c"
  shows "\<exists>pre n pos post. positioned es = pre @ (n, pos) # post
     \<and> canvas_scan X Y es c
         = Inr \<lparr>closestName = Some n, closestDist = euclid X Y pos, closestPos = Some pos\<rparr>
     \<and> euclid X Y pos < closestDist c
     \<and> (\<forall>q\<in>set pre. euclid X Y pos < euclid X Y (snd q))
     \<and> (\<forall>q\<in>set post. euclid X Y pos \<le> euclid X Y (snd q))"
  using assms
proof (induction es arbitrary: c)
  case Nil
  then show ?case by simp
next
  case (Cons a es)
  obtain n el where a: "a = (n, el)" by (cases a)
  from Cons.prems(1) have rest: "\<forall>q\<in>set es. returns (getPosition (snd q))"
    and r: "returns (getPosition el)" by (simp_all add: a)
  from r consider "getPosition el = Returns None" | pos where "getPosition el = Returns (Some pos)"
    by (cases "getPosition el") auto
  then show ?case
  proof cases
    case 1
    then have eqs: "positioned (a # es) = positioned es"
      "canvas_scan X Y (a # es) c = canvas_scan X Y es c"
      by (simp_all add: a)
    from Cons.prems(2) have "\<exists>q\<in>set (positioned es). euclid X Y (snd q) < closestDist c"
      unfolding eqs .
    from Cons.IH [OF rest this] show ?thesis unfolding eqs .
  next
    case 2
    have pe: "positioned (a # es) = (n, pos) # positioned es"
      by (simp add: a 2)
    show ?thesis
    proof (cases "euclid X Y pos < closestDist c")
      case True
      define c1 where "c1 = \<lparr>closestName = Some n, closestDist = euclid X Y pos, closestPos = Some pos\<rparr>"
      have d1: "closestDist c1 = euclid X Y pos" by (simp add: c1_def)
      have sc: "canvas_scan X Y (a # es) c = canvas_scan X Y es c1"
        using True by (simp add: a 2 c1_def)
      show ?thesis
      proof (cases "\<exists>q\<in>set (positioned es). euclid X Y (snd q) < closestDist c1")
        case better: True
        from Cons.IH [OF rest better] obtain pre n' pos' post where
          d: "positioned es = pre @ (n', pos') # post"
          and c': "canvas_scan X Y es c1
             = Inr \<lparr>closestName = Some n', closestDist = euclid X Y pos', closestPos = Some pos'\<rparr>"
          and lt: "euclid X Y pos' < closestDist c1"
          and pre: "\<forall>q\<in>set pre. euclid X Y pos' < euclid X Y (snd q)"
          and post: "\<forall>q\<in>set post. euclid X Y pos' \<le> euclid X Y (snd q)"
          by blast
        have "positioned (a # es) = ((n, pos) # pre) @ (n', pos') # post"
          by (simp add: pe d)
        moreover have "euclid X Y pos' < closestDist c" using lt True d1 by simp
        moreover have "\<forall>q\<in>set ((n, pos) # pre). euclid X Y pos' < euclid X Y (snd q)"
          using pre lt d1 by simp
        ultimately show ?thesis using c' post sc by metis
      next
        case nobetter: False
        from canvas_scan_keep [OF rest, of X Y c1] nobetter
        have "canvas_scan X Y es c1 = Inr c1" by blast
        then have "canvas_scan X Y (a # es) c
            = Inr \<lparr>closestName = Some n, closestDist = euclid X Y pos, closestPos = Some pos\<rparr>"
          using sc by (simp add: c1_def)
        moreover have "positioned (a # es) = [] @ (n, pos) # positioned es" by (simp add: pe)
        moreover have "\<forall>q\<in>set (positioned es). euclid X Y pos \<le> euclid X Y (snd q)"
          using nobetter d1 by (auto simp: not_less)
        moreover have "\<forall>q\<in>set ([] :: (string \<times> position) list). euclid X Y pos < euclid X Y (snd q)"
          by simp
        ultimately show ?thesis using True by blast
      qed
    next
      case False
      have sc: "canvas_scan X Y (a # es) c = canvas_scan X Y es c"
        using False by (simp add: a 2)
      from Cons.prems(2) False
      have better: "\<exists>q\<in>set (positioned es). euclid X Y (snd q) < closestDist c"
        by (simp add: pe)
      from Cons.IH [OF rest better] obtain pre n' pos' post where
        d: "positioned es = pre @ (n', pos') # post"
        and c': "canvas_scan X Y es c
           = Inr \<lparr>closestName = Some n', closestDist = euclid X Y pos', closestPos = Some pos'\<rparr>"
        and lt: "euclid X Y pos' < closestDist c"
        and pre: "\<forall>q\<in>set pre. euclid X Y pos' < euclid X Y (snd q)"
        and post: "\<forall>q\<in>set post. euclid X Y pos' \<le> euclid X Y (snd q)"
        by blast
      have "positioned (a # es) = ((n, pos) # pre) @ (n', pos') # post"
        by (simp add: pe d)
      moreover have "\<forall>q\<in>set ((n, pos) # pre). euclid X Y pos' < euclid X Y (snd q)"
        using pre lt False by simp
      ultimately show ?thesis using c' post sc lt by metis
    qed
  qed
qed

lemma canvas_sdk_elements: "elements canvas_sdk =
   [(''upper'', \<lparr>el_name = ''upper'', getPosition = Returns (Some \<lparr>pos_x = 100, pos_y = 100\<rparr>)\<rparr>),
    (''lower'', \<lparr>el_name = ''lower'', getPosition = Returns (Some \<lparr>pos_x = 100, pos_y = 140\<rparr>)\<rparr>),
    (''hidden'', \<lparr>el_name = ''hidden'', getPosition = Returns None\<rparr>)]"
  by (simp add: canvas_sdk_def registerElement_def new_sdk_def)

text \<open>
  Claim C3, as amended: on a canvas, with position getters that return, an
  \<open>elementTapped\<close> event with \<open>matchType\<close> \<open>canvas\<close> is sent exactly when the least
  distance from the tap to a positioned element, as the listener computes it in double
  arithmetic (\<open>euclid\<close>: the subtraction, the squares, the sum and the square root,
  each rounded to the nearest double), is below 35; the element sent has that least
  computed distance, and no element registered before it has; otherwise nothing is
  sent.
\<close>

theorem canvas_nearest_within_threshold:
  assumes "elementFromPoint h X Y = Some t" and "tagName h t = ''CANVAS''"
    and "\<forall>q\<in>set (elements sdk). returns (getPosition (snd q))"
  shows "if positioned (elements sdk) \<noteq> []
            \<and> Min ((\<lambda>q. euclid X Y (snd q)) ` set (positioned (elements sdk))) < 35
         then \<exists>pre n pos post. positioned (elements sdk) = pre @ (n, pos) # post
            \<and> euclid X Y pos = Min ((\<lambda>q. euclid X Y (snd q)) ` set (positioned (elements sdk)))
            \<and> (\<forall>q\<in>set pre. euclid X Y (snd q)
                  \<noteq> Min ((\<lambda>q. euclid X Y (snd q)) ` set (positioned (elements sdk))))
            \<and> onPointerDown sdk h X Y =
                Inr [Send (Event ''elementTapped''
                  \<lparr>element = n, matchType = ''canvas'', tapX = Some (Math_round X),
                   tapY = Some (Math_round Y), elementX = Some (Math_round (pos_x pos)),
                   elementY = Some (Math_round (pos_y pos)),
                   dist = Some (Math_round (euclid X Y pos))\<rparr>)]
         else onPointerDown sdk h X Y = Inr []"
proof -
  let ?cs = "positioned (elements sdk)"
  let ?d = "\<lambda>q. euclid X Y (snd q)"
  let ?c0 = "\<lparr>closestName = None, closestDist = THRESHOLD, closestPos = None\<rparr>"
  have d0: "closestDist ?c0 = 35" by (simp add: THRESHOLD_def)
  have near: "(?cs \<noteq> [] \<and> Min (?d ` set ?cs) < 35) \<longleftrightarrow> (\<exists>q\<in>set ?cs. ?d q < 35)"
    by (cases "?cs = []") (simp_all add: Min_less_iff)
  show ?thesis
  proof (cases "\<exists>q\<in>set ?cs. ?d q < 35")
    case True
    then have ne: "elements sdk \<noteq> []" by auto
    from True have "\<exists>q\<in>set ?cs. ?d q < closestDist ?c0" unfolding d0 .
    from canvas_scan_pick [OF assms(3) this] obtain pre n pos post where
      dec: "?cs = pre @ (n, pos) # post"
      and sc: "canvas_scan X Y (elements sdk) ?c0
         = Inr \<lparr>closestName = Some n, closestDist = euclid X Y pos, closestPos = Some pos\<rparr>"
      and pre: "\<forall>q\<in>set pre. euclid X Y pos < ?d q"
      and post: "\<forall>q\<in>set post. euclid X Y pos \<le> ?d q"
      by blast
    have "Min (?d ` set ?cs) = euclid X Y pos"
    proof (rule Min_eqI)
      show "finite (?d ` set ?cs)" by simp
      show "euclid X Y pos \<in> ?d ` set ?cs" by (force simp: dec)
      fix y assume "y \<in> ?d ` set ?cs"
      then obtain q where "q \<in> set ?cs" "y = ?d q" by blast
      then show "euclid X Y pos \<le> y" using pre post by (auto simp: dec)
    qed
    then have m: "euclid X Y pos = Min (?d ` set ?cs)" by simp
    have pre': "\<forall>q\<in>set pre. ?d q \<noteq> Min (?d ` set ?cs)"
      using pre unfolding m [symmetric] by fastforce
    have ev: "onPointerDown sdk h X Y =
        Inr [Send (Event ''elementTapped''
          \<lparr>element = n, matchType = ''canvas'', tapX = Some (Math_round X),
           tapY = Some (Math_round Y), elementX = Some (Math_round (pos_x pos)),
           elementY = Some (Math_round (pos_y pos)),
           dist = Some (Math_round (euclid X Y pos))\<rparr>)]"
      using assms(1,2) ne sc
      by (simp add: onPointerDown_def sendEvent_def canvas_event_def)
    from dec m pre' ev have "\<exists>pre n pos post. ?cs = pre @ (n, pos) # post
        \<and> euclid X Y pos = Min (?d ` set ?cs)
        \<and> (\<forall>q\<in>set pre. ?d q \<noteq> Min (?d ` set ?cs))
        \<and> onPointerDown sdk h X Y =
            Inr [Send (Event ''elementTapped''
              \<lparr>element = n, matchType = ''canvas'', tapX = Some (Math_round X),
               tapY = Some (Math_round Y), elementX = Some (Math_round (pos_x pos)),
               elementY = Some (Math_round (pos_y pos)),
               dist = Some (Math_round (euclid X Y pos))\<rparr>)]"
      by blast
    with True near show ?thesis by simp
  next
    case False
    then have "\<forall>q\<in>set ?cs. \<not> ?d q < closestDist ?c0" unfolding d0 by blast
    from canvas_scan_keep [OF assms(3) this]
    have "onPointerDown sdk h X Y = Inr []"
      using assms(1,2) by (simp add: onPointerDown_def)
    with False near show ?thesis by simp
  qed
qed

theorem canvas_nearest_within_threshold_witness:
  "onPointerDown canvas_sdk canvas_host 100 120 =
     Inr [Send (Event ''elementTapped''
       \<lparr>element = ''upper'', matchType = ''canvas'', tapX = Some 100, tapY = Some 120,
        elementX = Some 100, elementY = Some 100, dist = Some 20\<rparr>)]
   \<and> onPointerDown canvas_sdk canvas_host 100 180 = Inr []"
proof -
  have h1: "elementFromPoint canvas_host 100 120 = Some 7"
    and h1': "elementFromPoint canvas_host 100 180 = Some 7"
    and h2: "tagName canvas_host 7 = ''CANVAS''"
    by (simp_all add: canvas_host_def)
  have h3: "\<forall>q\<in>set (elements canvas_sdk). returns (getPosition (snd q))"
    by (simp add: canvas_sdk_elements)
  have cs: "positioned (elements canvas_sdk) =
      [(''upper'', \<lparr>pos_x = 100, pos_y = 100\<rparr>), (''lower'', \<lparr>pos_x = 100, pos_y = 140\<rparr>)]"
    by (simp add: canvas_sdk_elements)
  note e1 = euclid_small
  have r: "Math_round 100 = 100" "Math_round 120 = 120" "Math_round 20 = 20"
    by (simp_all add: Math_round_def)
  have A: "onPointerDown canvas_sdk canvas_host 100 120 =
     Inr [Send (Event ''elementTapped''
       \<lparr>element = ''upper'', matchType = ''canvas'', tapX = Some 100, tapY = Some 120,
        elementX = Some 100, elementY = Some 100, dist = Some 20\<rparr>)]"
    using canvas_nearest_within_threshold [OF h1 h2 h3]
    by (auto simp: cs e1 r Cons_eq_append_conv)
  have B: "onPointerDown canvas_sdk canvas_host 100 180 = Inr []"
    using canvas_nearest_within_threshold [OF h1' h2 h3]
    by (simp add: cs e1)
  from A B show ?thesis by simp
qed

text \<open>
  The claim as it was stated speaks of the Euclidean distance. An element at
  \<open>(21, 28 - 2^(-48))\<close> is nearer to a tap at the origin than 35, but its computed
  distance is 35, which is not below the threshold: nothing is sent. And of two elements
  at \<open>(3, 4)\<close> and \<open>(3, 4 - 2^(-51))\<close>, the second is the nearer one, but both have the
  computed distance 5, and the first is sent.
\<close>

theorem canvas_rounding_counterexample:
  "positioned (elements edge_sdk) = [(''near'', \<lparr>pos_x = 21, pos_y = 28 - 1 / 2 ^ 48\<rparr>)]
   \<and> euclidean_distance 0 0 \<lparr>pos_x = 21, pos_y = 28 - 1 / 2 ^ 48\<rparr> < 35
   \<and> onPointerDown edge_sdk canvas_host 0 0 = Inr []
   \<and> positioned (elements tie_sdk) =
       [(''first'', \<lparr>pos_x = 3, pos_y = 4\<rparr>), (''second'', \<lparr>pos_x = 3, pos_y = 4 - 1 / 2 ^ 51\<rparr>)]
   \<and> euclidean_distance 0 0 \<lparr>pos_x = 3, pos_y = 4 - 1 / 2 ^ 51\<rparr>
       < euclidean_distance 0 0 \<lparr>pos_x = 3, pos_y = 4\<rparr>
   \<and> onPointerDown tie_sdk canvas_host 0 0 =
       Inr [Send (Event ''elementTapped''
         \<lparr>element = ''first'', matchType = ''canvas'', tapX = Some 0, tapY = Some 0,
          elementX = Some 3, elementY = Some 4, dist = Some 5\<rparr>)]"
proof -
  have e: "elements edge_sdk =
      [(''near'', \<lparr>el_name = ''near'',
         getPosition = Returns (Some \<lparr>pos_x = 21, pos_y = 28 - 1 / 2 ^ 48\<rparr>)\<rparr>)]"
    by (simp add: edge_sdk_def registerElement_def new_sdk_def)
  have t: "elements tie_sdk =
      [(''first'', \<lparr>el_name = ''first'', getPosition = Returns (Some \<lparr>pos_x = 3, pos_y = 4\<rparr>)\<rparr>),
       (''second'', \<lparr>el_name = ''second'',
         getPosition = Returns (Some \<lparr>pos_x = 3, pos_y = 4 - 1 / 2 ^ 51\<rparr>)\<rparr>)]"
    by (simp add: tie_sdk_def registerElement_def new_sdk_def)
  have h: "elementFromPoint canvas_host 0 0 = Some 7" "tagName canvas_host 7 = ''CANVAS''"
    by (simp_all add: canvas_host_def)
  have p1: "positioned (elements edge_sdk)
      = [(''near'', \<lparr>pos_x = 21, pos_y = 28 - 1 / 2 ^ 48\<rparr>)]"
    unfolding e by (simp only: positioned.simps outcome.case option.case
        ElementDescriptor.select_convs)
  have p2: "positioned (elements tie_sdk) =
       [(''first'', \<lparr>pos_x = 3, pos_y = 4\<rparr>), (''second'', \<lparr>pos_x = 3, pos_y = 4 - 1 / 2 ^ 51\<rparr>)]"
    unfolding t by (simp only: positioned.simps outcome.case option.case
        ElementDescriptor.select_convs)
  have s1: "canvas_scan 0 0 (elements edge_sdk)
        \<lparr>closestName = None, closestDist = THRESHOLD, closestPos = None\<rparr>
      = Inr \<lparr>closestName = None, closestDist = THRESHOLD, closestPos = None\<rparr>"
    unfolding e
    by (simp only: canvas_scan.simps outcome.case option.case ElementDescriptor.select_convs
        euclid_edge closest.select_convs THRESHOLD_def) simp
  have o1: "onPointerDown edge_sdk canvas_host 0 0 = Inr []"
    unfolding onPointerDown_def s1 by (simp add: h e)
  have s2: "canvas_scan 0 0 (elements tie_sdk)
        \<lparr>closestName = None, closestDist = THRESHOLD, closestPos = None\<rparr>
      = Inr \<lparr>closestName = Some ''first'', closestDist = 5,
            closestPos = Some \<lparr>pos_x = 3, pos_y = 4\<rparr>\<rparr>"
    unfolding t
    by (simp only: canvas_scan.simps outcome.case option.case ElementDescriptor.select_convs
        euclid_tie closest.select_convs THRESHOLD_def) simp
  have o2: "onPointerDown tie_sdk canvas_host 0 0 =
       Inr [Send (Event ''elementTapped''
         \<lparr>element = ''first'', matchType = ''canvas'', tapX = Some 0, tapY = Some 0,
          elementX = Some 3, elementY = Some 4, dist = Some 5\<rparr>)]"
    unfolding onPointerDown_def s2
    by (simp add: h t sendEvent_def canvas_event_def Math_round_def)
  from p1 exact_edge o1 p2 exact_tie o2 show ?thesis by (intro conjI)
qed

subsection \<open>The DOM branch\<close>

lemma dom_scan_find:
  assumes "\<forall>q\<in>set (takeWhile (\<lambda>q. \<not> hit h t (snd q)) es). returns (getPosition (snd q))"
  shows "dom_scan h t X Y es =
     (case find (\<lambda>q. hit h t (snd q)) es of
        None \<Rightarrow> Inr []
      | Some (n, el) \<Rightarrow>
          (case getPosition el of
             Returns (Some pos) \<Rightarrow> Inr [Send (Event ''elementTapped'' (dom_event n X Y pos))]
           | _ \<Rightarrow> Inr []))"
  using assms
proof (induction es)
  case Nil
  then show ?case by simp
next
  case (Cons q es)
  obtain n el where q: "q = (n, el)" by (cases q)
  show ?case
  proof (cases "hit h t el")
    case True
    then show ?thesis
      by (auto simp: q hit_def sendEvent_def split: outcome.splits option.splits)
  next
    case False
    with Cons.prems have r: "returns (getPosition el)"
      and rest: "\<forall>q\<in>set (takeWhile (\<lambda>q. \<not> hit h t (snd q)) es). returns (getPosition (snd q))"
      by (simp_all add: q)
    from False r have "dom_scan h t X Y ((n, el) # es) = dom_scan h t X Y es"
      by (auto simp: hit_def split: outcome.splits option.splits)
    with Cons.IH [OF rest] False show ?thesis by (simp add: q)
  qed
qed

lemma dom_scan_length: "dom_scan h t X Y es = Inr evs \<Longrightarrow> length evs \<le> 1"
  by (induction es) (auto simp: sendEvent_def split: outcome.splits option.splits if_splits)

lemma skipped_not_hit: "skipped h el \<Longrightarrow> \<not> hit h t el"
  by (auto simp: skipped_def hit_def split: outcome.splits option.splits)

lemma skipped_dom_scan:
  "skipped h el \<Longrightarrow> dom_scan h t X Y ((n, el) # rest) = dom_scan h t X Y rest"
  by (auto simp: skipped_def split: outcome.splits option.splits)

lemma hit_position: "hit h t el \<Longrightarrow> \<exists>pos. getPosition el = Returns (Some pos)"
  by (auto simp: hit_def split: outcome.splits option.splits)

lemma dom_sdk_elements: "elements dom_sdk =
   [(''ghost'', \<lparr>el_name = ''ghost'', getPosition = Returns None\<rparr>),
    (''art'', \<lparr>el_name = ''art'', getPosition = Returns (Some \<lparr>pos_x = 50, pos_y = 350\<rparr>)\<rparr>),
    (''play'', \<lparr>el_name = ''play'', getPosition = Returns (Some \<lparr>pos_x = 100, pos_y = 25\<rparr>)\<rparr>),
    (''panel'', \<lparr>el_name = ''panel'', getPosition = Returns (Some \<lparr>pos_x = 150, pos_y = 140\<rparr>)\<rparr>),
    (''late'', \<lparr>el_name = ''late'', getPosition = Throws ''Error: late''\<rparr>)]"
  by (simp add: dom_sdk_def registerElement_def new_sdk_def)

text \<open>
  Claim C4: when the tapped node is not a canvas, the first element in registration
  order whose node (the node at its position, not a canvas) equals, contains or is
  contained by the tapped node yields one \<open>elementTapped\<close> event with \<open>matchType\<close> \<open>dom\<close>
  and rounded coordinates, and the elements after it are not looked at; an element whose
  getter returns \<open>null\<close>, or whose position has no node or a canvas, is passed over and
  never matches; with no match nothing is sent; and a pointer-down sends at most one event. The getters of
  the elements before the first match are taken to return.
\<close>

theorem dom_first_match:
  assumes "elementFromPoint h X Y = Some t" and "tagName h t \<noteq> ''CANVAS''"
    and "\<forall>q\<in>set (takeWhile (\<lambda>q. \<not> hit h t (snd q)) (elements sdk)).
           returns (getPosition (snd q))"
  shows "(case find (\<lambda>q. hit h t (snd q)) (elements sdk) of
            None \<Rightarrow> onPointerDown sdk h X Y = Inr []
          | Some (n, el) \<Rightarrow>
              (case getPosition el of
                 Returns (Some pos) \<Rightarrow>
                   onPointerDown sdk h X Y =
                     Inr [Send (Event ''elementTapped''
                       \<lparr>element = n, matchType = ''dom'', tapX = Some (Math_round X),
                        tapY = Some (Math_round Y), elementX = Some (Math_round (pos_x pos)),
                        elementY = Some (Math_round (pos_y pos)), dist = None\<rparr>)]
               | _ \<Rightarrow> False))
    \<and> (\<forall>q\<in>set (elements sdk). skipped h (snd q) \<longrightarrow> \<not> hit h t (snd q))
    \<and> (\<forall>n el rest. skipped h el \<longrightarrow>
          dom_scan h t X Y ((n, el) # rest) = dom_scan h t X Y rest)
    \<and> (\<forall>evs. onPointerDown sdk h X Y = Inr evs \<longrightarrow> length evs \<le> 1)"
proof -
  have scan: "onPointerDown sdk h X Y = dom_scan h t X Y (elements sdk)"
    using assms(1,2) by (cases "elements sdk") (simp_all add: onPointerDown_def)
  have first: "case find (\<lambda>q. hit h t (snd q)) (elements sdk) of
            None \<Rightarrow> onPointerDown sdk h X Y = Inr []
          | Some (n, el) \<Rightarrow>
              (case getPosition el of
                 Returns (Some pos) \<Rightarrow>
                   onPointerDown sdk h X Y =
                     Inr [Send (Event ''elementTapped''
                       \<lparr>element = n, matchType = ''dom'', tapX = Some (Math_round X),
                        tapY = Some (Math_round Y), elementX = Some (Math_round (pos_x pos)),
                        elementY = Some (Math_round (pos_y pos)), dist = None\<rparr>)]
               | _ \<Rightarrow> False)"
  proof (cases "find (\<lambda>q. hit h t (snd q)) (elements sdk)")
    case None
    then show ?thesis using dom_scan_find [OF assms(3), of X Y] scan by simp
  next
    case (Some q)
    obtain n el where q: "q = (n, el)" by (cases q)
    from Some have "hit h t (snd q)" by (auto simp: find_Some_iff)
    then have "hit h t el" by (simp add: q)
    then obtain pos where "getPosition el = Returns (Some pos)" using hit_position by blast
    then show ?thesis
      using dom_scan_find [OF assms(3), of X Y] scan Some by (simp add: q dom_event_def)
  qed
  have one: "\<forall>evs. onPointerDown sdk h X Y = Inr evs \<longrightarrow> length evs \<le> 1"
    unfolding scan using dom_scan_length by blast
  have pass: "\<forall>n el rest. skipped h el \<longrightarrow>
      dom_scan h t X Y ((n, el) # rest) = dom_scan h t X Y rest"
    using skipped_dom_scan by blast
  from first one pass skipped_not_hit show ?thesis by blast
qed

theorem dom_first_match_witness:
  "onPointerDown dom_sdk dom_host (102 / 5) (241 / 2) =
     Inr [Send (Event ''elementTapped''
       \<lparr>element = ''panel'', matchType = ''dom'', tapX = Some 20, tapY = Some 121,
        elementX = Some 150, elementY = Some 140, dist = None\<rparr>)]"
proof -
  have h1: "elementFromPoint dom_host (102 / 5) (241 / 2) = Some 5"
    and h2: "tagName dom_host 5 \<noteq> ''CANVAS''"
    by (simp_all add: dom_host_def)
  have hits: "\<not> hit dom_host 5 \<lparr>el_name = ''ghost'', getPosition = Returns None\<rparr>"
    "\<not> hit dom_host 5 \<lparr>el_name = ''art'', getPosition = Returns (Some \<lparr>pos_x = 50, pos_y = 350\<rparr>)\<rparr>"
    "\<not> hit dom_host 5 \<lparr>el_name = ''play'', getPosition = Returns (Some \<lparr>pos_x = 100, pos_y = 25\<rparr>)\<rparr>"
    "hit dom_host 5 \<lparr>el_name = ''panel'', getPosition = Returns (Some \<lparr>pos_x = 150, pos_y = 140\<rparr>)\<rparr>"
    by (simp_all add: hit_def dom_host_def)
  have h3: "\<forall>q\<in>set (takeWhile (\<lambda>q. \<not> hit dom_host 5 (snd q)) (elements dom_sdk)).
           returns (getPosition (snd q))"
    by (simp add: dom_sdk_elements hits)
  have r: "Math_round (102 / 5) = 20" "Math_round (241 / 2) = 121" "Math_round 150 = 150"
    "Math_round 140 = 140"
    by (simp_all add: Math_round_def)
  show ?thesis
    using dom_first_match [OF h1 h2 h3]
    by (simp add: dom_sdk_elements hits r)
qed

section \<open>The transport: proofs\<close>

subsection \<open>Frames\<close>

lemma split_lines_nonempty: "split_lines d \<noteq> []"
  by (induction d) (auto split: list.splits)

lemma join_split_lines: "join_lines (split_lines d) = d"
proof (induction d)
  case Nil
  then show ?case by simp
next
  case (Cons c cs)
  obtain l ls where s: "split_lines cs = l # ls"
    using split_lines_nonempty [of cs] by (cases "split_lines cs") auto
  with Cons show ?case by (cases ls) auto
qed

lemma split_lines_no_newline: "l \<in> set (split_lines d) \<Longrightarrow> CHR 0x0A \<notin> set l"
  by (induction d arbitrary: l) (auto split: list.splits if_splits)

lemma all_dropWhile: "(\<forall>x\<in>set (dropWhile Q l). Q x) = (\<forall>x\<in>set l. Q x)"
  by (induction l) auto

lemma trim_blank: "(trim l = []) = (\<forall>c\<in>set l. is_space c)"
  by (simp add: trim_def all_dropWhile)

lemma handler_calls_process_lines:
  "handler_calls (process_lines P (Some hdl) ls)
     = List.map_filter P (filter (\<lambda>l. trim l \<noteq> []) ls)"
  by (induction ls) (auto split: option.splits outcome.splits)

lemma warnings_process_lines:
  "filter (\<lambda>l. P l = None) (warnings (process_lines P (Some hdl) ls))
     = filter (\<lambda>l. trim l \<noteq> [] \<and> P l = None) ls"
  by (induction ls) (auto split: option.splits outcome.splits)

lemma process_lines_quiet:
  "\<forall>m. \<exists>u. hdl m = Returns u \<Longrightarrow>
   process_lines P (Some hdl) ls
     = map (\<lambda>l. case P l of None \<Rightarrow> Warned l | Some m \<Rightarrow> HandlerCalled m)
         (filter (\<lambda>l. trim l \<noteq> []) ls)"
proof (induction ls)
  case Nil
  then show ?case by simp
next
  case (Cons l ls)
  then show ?case
    by (auto split: option.splits outcome.splits)
qed

lemma ping_line_chars: "ping_line = ''{'' @ [CHR 0x22] @ ''type'' @ [CHR 0x22] @ '':'' @ [CHR 0x22] @ ''command'' @ [CHR 0x22] @ '','' @ [CHR 0x22] @ ''id'' @ [CHR 0x22] @ '':''
     @ [CHR 0x22] @ ''1'' @ [CHR 0x22] @ '','' @ [CHR 0x22] @ ''command'' @ [CHR 0x22] @ '':'' @ [CHR 0x22] @ ''ping'' @ [CHR 0x22] @ ''}''"
  by (simp add: ping_line_def dq_def)

lemma split_mixed: "split_lines mixed_frame = [ping_line, ''  '', ''{oops'', [], ping_line]"
  by (simp add: mixed_frame_def ping_line_chars)

text \<open>
  Claim C6, as amended: a frame is split at its newlines; every line that has a
  character other than white space is parsed on its own; the lines that parse are
  handed to the message handler, in order, whatever the other lines are; every such
  line that fails to parse gets a warning; a line of white space only is skipped
  without a warning.
\<close>

theorem onmessage_per_line:
  "handler_calls (onmessage P (Some hdl) d)
      = List.map_filter P (filter (\<lambda>l. \<not> (\<forall>c\<in>set l. is_space c)) (split_lines d))
   \<and> filter (\<lambda>l. P l = None) (warnings (onmessage P (Some hdl) d))
      = filter (\<lambda>l. \<not> (\<forall>c\<in>set l. is_space c) \<and> P l = None) (split_lines d)
   \<and> join_lines (split_lines d) = d
   \<and> (\<forall>l\<in>set (split_lines d). CHR 0x0A \<notin> set l)"
  using split_lines_no_newline [of _ d]
  by (simp add: onmessage_def handler_calls_process_lines warnings_process_lines
      join_split_lines trim_blank)

theorem onmessage_per_line_witness:
  "handler_calls (onmessage ping_only (Some quiet_handler) mixed_frame)
      = [\<lparr>cmd_id = ''1'', cmd_command = ''ping'', parameters = None\<rparr>,
         \<lparr>cmd_id = ''1'', cmd_command = ''ping'', parameters = None\<rparr>]
   \<and> filter (\<lambda>l. ping_only l = None) (warnings (onmessage ping_only (Some quiet_handler) mixed_frame))
      = [''{oops'']"
  using onmessage_per_line [of ping_only quiet_handler mixed_frame]
  by (simp add: split_mixed is_space_def ping_only_def ping_line_chars)

text \<open>
  The claim as it was stated parses every non-empty line, so that a line of two spaces
  fails to parse and is reported. The client tests \<open>line.trim()\<close> first and passes
  over such a line in silence.
\<close>

theorem blank_line_counterexample:
  "onmessage_spec ping_only ''  '' = [Warned ''  '']
   \<and> onmessage ping_only (Some quiet_handler) ''  '' = []"
  by (simp add: onmessage_spec_def onmessage_def ping_only_def ping_line_chars trim_def is_space_def)

subsection \<open>Destruction\<close>

lemma destroy_fields:
  "destroyed (destroy s)" "ws (destroy s) = None" "reconnectTimer (destroy s) = None"
  "connected (destroy s) = False"
  by (simp_all add: destroy_def socket_close_def Let_def split: option.splits)

lemma destroy_cancels:
  "reconnectTimer s = Some t \<Longrightarrow>
     t \<notin> set (timers (destroy s)) \<and> Cancelled t \<in> set (trace (destroy s))"
  by (simp add: destroy_def socket_close_def Let_def split: option.splits)

lemma destroy_only_timer:
  "set (timers s) \<subseteq> set_option (reconnectTimer s) \<Longrightarrow> timers (destroy s) = []"
  by (cases "reconnectTimer s")
    (auto simp: destroy_def socket_close_def Let_def removeAll_filter_not_eq filter_empty_conv
      split: option.splits)

lemma destroy_dead: "destroyed s \<Longrightarrow> ws s = None \<Longrightarrow> reconnectTimer s = None \<Longrightarrow> connected s = False \<Longrightarrow> destroy s = s"
  by (simp add: destroy_def Let_def)

lemma destroy_idempotent: "destroy (destroy s) = destroy s"
  by (rule destroy_dead) (rule destroy_fields)+

lemma step_dead:
  assumes "destroyed s" and "ws s = None"
  shows "destroyed (step P e s) \<and> ws (step P e s) = None
    \<and> filter reconnects (trace (step P e s)) = filter reconnects (trace s)
    \<and> filter writes (trace (step P e s)) = filter writes (trace s)"
proof (cases e)
  case Destroy
  then show ?thesis using assms
    by (simp add: destroy_def Let_def split: option.splits)
next
  case (SocketMessage k d)
  have "filter reconnects (map Line xs) = []" "filter writes (map Line xs) = []" for xs
    by (induction xs) simp_all
  with SocketMessage assms show ?thesis by simp
qed (use assms in \<open>simp_all add: connect_def send_def onopen_def onclose_def onerror_def
      connect_internal_def Let_def\<close>)

lemma run_dead:
  assumes "destroyed s" and "ws s = None"
  shows "destroyed (run P es s) \<and> ws (run P es s) = None
    \<and> filter reconnects (trace (run P es s)) = filter reconnects (trace s)
    \<and> filter writes (trace (run P es s)) = filter writes (trace s)"
  using assms
proof (induction es arbitrary: s)
  case Nil
  then show ?case by simp
next
  case (Cons e es)
  from step_dead [OF Cons.prems, of P e]
  have d: "destroyed (step P e s)" "ws (step P e s) = None"
    and t: "filter reconnects (trace (step P e s)) = filter reconnects (trace s)"
      "filter writes (trace (step P e s)) = filter writes (trace s)"
    by simp_all
  from Cons.IH [OF d] t show ?case by simp
qed

lemma quiet_client_eq: "quiet_client =
  \<lparr>ws = None, reconnectDelay = 2000, reconnectTimer = Some 1, connected = False,
   destroyed = False, onMessage = None, sockets = [CLOSED], timers = [1],
   next_timer = 2, url_throws = False,
   trace = [Constructed 0, NotifyConnected, NotifyDisconnected, Scheduled 1 2000]\<rparr>"
  by (simp add: quiet_client_def new_WSClient_def connect_def connect_internal_def onopen_def
      onclose_def Let_def)

lemma busy_client_eq: "busy_client =
  \<lparr>ws = Some 2, reconnectDelay = 2000, reconnectTimer = Some 2, connected = True,
   destroyed = False, onMessage = None, sockets = [CLOSED, CLOSED, OPEN], timers = [1],
   next_timer = 3, url_throws = False,
   trace = [Constructed 0, NotifyConnected, Wrote 0 pong_reply, NotifyDisconnected,
     Scheduled 1 2000, Constructed 1, NotifyDisconnected, Scheduled 2 2000, Constructed 2,
     NotifyConnected]\<rparr>"
  by (simp add: busy_client_def new_WSClient_def connect_def connect_internal_def onopen_def
      onclose_def send_def Let_def)

lemma send_when_open:
  "ws s = Some k \<Longrightarrow> k < length (sockets s) \<Longrightarrow> sockets s ! k = OPEN \<Longrightarrow>
   trace (send m s) = trace s @ [Wrote k m]"
  by (simp add: send_def)

lemma send_when_not_open:
  "ws s = None \<or> (\<exists>k. ws s = Some k \<and> (length (sockets s) \<le> k \<or> sockets s ! k \<noteq> OPEN)) \<Longrightarrow>
   send m s = s"
  by (auto simp: send_def)

text \<open>
  In the SDK's use of the client (one \<open>connect()\<close>, at construction), no timeout is
  pending after \<open>destroy()\<close>.
\<close>

lemma removeAll_only: "set xs \<subseteq> {a} \<Longrightarrow> removeAll a xs = []"
  by (auto simp: removeAll_filter_not_eq filter_empty_conv)

lemma tidy_new: "tidy (connect (new_WSClient d b))"
  by (simp add: tidy_def connect_def connect_internal_def new_WSClient_def)

lemma tidyI:
  "set (timers s) \<subseteq> set_option (reconnectTimer s) \<Longrightarrow>
   (\<And>i. i < length (sockets s) \<Longrightarrow> sockets s ! i \<noteq> CLOSED
      \<Longrightarrow> timers s = [] \<and> Suc i = length (sockets s)) \<Longrightarrow> tidy s"
  by (simp add: tidy_def)

lemma tidy_timers: "tidy s \<Longrightarrow> set (timers s) \<subseteq> set_option (reconnectTimer s)"
  by (simp add: tidy_def)

lemma tidy_live:
  "tidy s \<Longrightarrow> i < length (sockets s) \<Longrightarrow> sockets s ! i \<noteq> CLOSED
   \<Longrightarrow> timers s = [] \<and> Suc i = length (sockets s)"
  by (simp add: tidy_def)

lemma destroy_timers: "tidy s \<Longrightarrow> timers (destroy s) = []"
proof (cases "reconnectTimer s")
  case None
  assume "tidy s"
  with None have "timers s = []" using tidy_timers [of s] by simp
  with None show ?thesis
    by (simp add: destroy_def socket_close_def Let_def split: option.splits)
next
  case (Some t)
  assume "tidy s"
  with Some have "removeAll t (timers s) = []" using tidy_timers [of s] removeAll_only by simp
  with Some show ?thesis
    by (simp add: destroy_def socket_close_def Let_def split: option.splits)
qed

lemma destroy_sockets:
  "length (sockets (destroy s)) = length (sockets s)"
  "i < length (sockets s) \<Longrightarrow> sockets (destroy s) ! i \<noteq> CLOSED \<Longrightarrow> sockets s ! i \<noteq> CLOSED"
  by (auto simp: destroy_def socket_close_def Let_def nth_list_update
      split: option.splits if_splits)

lemma tidy_destroy: "tidy s \<Longrightarrow> tidy (destroy s)"
proof (rule tidyI)
  assume t: "tidy s"
  show "set (timers (destroy s)) \<subseteq> set_option (reconnectTimer (destroy s))"
    by (simp add: destroy_timers [OF t])
  fix i assume i: "i < length (sockets (destroy s))" and l: "sockets (destroy s) ! i \<noteq> CLOSED"
  from i have i': "i < length (sockets s)" by (simp add: destroy_sockets(1))
  from destroy_sockets(2) [OF i' l] have "sockets s ! i \<noteq> CLOSED" .
  from tidy_live [OF t i' this] show "timers (destroy s) = [] \<and> Suc i = length (sockets (destroy s))"
    by (simp add: destroy_timers [OF t] destroy_sockets(1))
qed

lemma tidy_socket_open:
  assumes t: "tidy s" and k: "k < length (sockets s)" and c: "sockets s ! k = CONNECTING"
  shows "tidy (onopen (s\<lparr>sockets := (sockets s)[k := OPEN]\<rparr>))"
proof (rule tidyI)
  show "set (timers (onopen (s\<lparr>sockets := (sockets s)[k := OPEN]\<rparr>)))
      \<subseteq> set_option (reconnectTimer (onopen (s\<lparr>sockets := (sockets s)[k := OPEN]\<rparr>)))"
    using tidy_timers [OF t] by (simp add: onopen_def)
  from c have kl: "sockets s ! k \<noteq> CLOSED" by simp
  note K = tidy_live [OF t k kl]
  fix i assume i: "i < length (sockets (onopen (s\<lparr>sockets := (sockets s)[k := OPEN]\<rparr>)))"
    and l: "sockets (onopen (s\<lparr>sockets := (sockets s)[k := OPEN]\<rparr>)) ! i \<noteq> CLOSED"
  from i have i': "i < length (sockets s)" by (simp add: onopen_def)
  have "Suc i = length (sockets s)"
  proof (cases "i = k")
    case True
    with K show ?thesis by simp
  next
    case False
    with l i' have "sockets s ! i \<noteq> CLOSED" by (simp add: onopen_def)
    from tidy_live [OF t i' this] show ?thesis by simp
  qed
  with K show "timers (onopen (s\<lparr>sockets := (sockets s)[k := OPEN]\<rparr>)) = []
      \<and> Suc i = length (sockets (onopen (s\<lparr>sockets := (sockets s)[k := OPEN]\<rparr>)))"
    by (simp add: onopen_def)
qed

lemma tidy_socket_close:
  assumes t: "tidy s" and k: "k < length (sockets s)" and c: "sockets s ! k \<noteq> CLOSED"
  shows "tidy (onclose (s\<lparr>sockets := (sockets s)[k := CLOSED]\<rparr>))"
proof -
  let ?s = "onclose (s\<lparr>sockets := (sockets s)[k := CLOSED]\<rparr>)"
  note K = tidy_live [OF t k c]
  have len: "length (sockets ?s) = length (sockets s)"
    by (simp add: onclose_def Let_def)
  have closed: "sockets ?s ! i = CLOSED" if i: "i < length (sockets s)" for i
  proof (cases "i = k")
    case True
    with i show ?thesis by (simp add: onclose_def Let_def)
  next
    case False
    have "sockets s ! i = CLOSED"
    proof (rule ccontr)
      assume "sockets s ! i \<noteq> CLOSED"
      from tidy_live [OF t i this] K False show False by simp
    qed
    with False i show ?thesis by (simp add: onclose_def Let_def)
  qed
  show ?thesis
  proof (rule tidyI)
    show "set (timers ?s) \<subseteq> set_option (reconnectTimer ?s)"
      using K by (simp add: onclose_def Let_def)
    fix i assume "i < length (sockets ?s)" and l: "sockets ?s ! i \<noteq> CLOSED"
    then have "i < length (sockets s)" by (simp add: len)
    from closed [OF this] l show "timers ?s = [] \<and> Suc i = length (sockets ?s)" by simp
  qed
qed

lemma tidy_timer_fires:
  assumes t: "tidy s" and m: "t0 \<in> set (timers s)"
  shows "tidy (connect_internal (s\<lparr>timers := removeAll t0 (timers s)\<rparr>))"
proof -
  let ?s = "connect_internal (s\<lparr>timers := removeAll t0 (timers s)\<rparr>)"
  from m tidy_timers [OF t] have only: "set (timers s) \<subseteq> {t0}"
    by (cases "reconnectTimer s") auto
  then have e: "removeAll t0 (timers s) = []" by (rule removeAll_only)
  from m have ne: "timers s \<noteq> []" by auto
  have closed: "sockets s ! i = CLOSED" if i: "i < length (sockets s)" for i
  proof (rule ccontr)
    assume "sockets s ! i \<noteq> CLOSED"
    from tidy_live [OF t i this] ne show False by simp
  qed
  have tm: "timers ?s = []" by (simp add: connect_internal_def e)
  show ?thesis
  proof (rule tidyI)
    show "set (timers ?s) \<subseteq> set_option (reconnectTimer ?s)" by (simp add: tm)
    fix i assume i: "i < length (sockets ?s)" and l: "sockets ?s ! i \<noteq> CLOSED"
    have "Suc i = length (sockets ?s)"
    proof (cases "i < length (sockets s)")
      case True
      from closed [OF True] l True show ?thesis
        by (simp add: connect_internal_def nth_append split: if_splits)
    next
      case False
      with i show ?thesis by (simp add: connect_internal_def split: if_splits)
    qed
    with tm show "timers ?s = [] \<and> Suc i = length (sockets ?s)" by simp
  qed
qed

lemma tidy_step:
  assumes "tidy s" and "\<not> is_Connect e"
  shows "tidy (step P e s)"
proof (cases e)
  case Connect
  with assms(2) show ?thesis by simp
next
  case Destroy
  with assms(1) show ?thesis by (simp add: tidy_destroy)
next
  case (SendCall m)
  with assms(1) show ?thesis by (simp add: tidy_def send_def split: option.splits)
next
  case (SocketOpen k)
  with assms(1) show ?thesis by (simp add: tidy_socket_open)
next
  case (SocketMessage k d)
  with assms(1) show ?thesis by (simp add: tidy_def)
next
  case (SocketClose k)
  with assms(1) show ?thesis by (simp add: tidy_socket_close)
next
  case (SocketError k)
  with assms(1) show ?thesis by (simp add: onerror_def)
next
  case (TimerFires t)
  with assms(1) show ?thesis by (simp add: tidy_timer_fires)
qed

lemma tidy_run:
  "tidy s \<Longrightarrow> \<forall>e\<in>set es. \<not> is_Connect e \<Longrightarrow> tidy (run P es s)"
  by (induction es arbitrary: s) (simp_all add: tidy_step)

lemma single_timer_in_use:
  assumes "\<forall>e\<in>set es. \<not> is_Connect e"
  shows "timers (destroy (run P es (connect (new_WSClient d b)))) = []"
  using tidy_run [OF tidy_new assms, of P d b] by (rule destroy_timers)

text \<open>
  Claim C5: \<open>destroy()\<close> is idempotent and terminal. A second call changes nothing; the
  timer held in \<open>reconnectTimer\<close> is cancelled, and no timeout stays pending when it
  was the only one (as it is in the SDK's use, \<open>single_timer_in_use\<close>); after \<open>destroy()\<close>, whatever calls and events follow (a timeout that
  fires, a close event, \<open>connect()\<close>, \<open>send()\<close>), the flag stays set, no socket is
  constructed, no reconnect is scheduled and nothing is written; \<open>connect()\<close> and
  \<open>send()\<close> leave the client as it is.
\<close>

theorem destroy_is_terminal:
  "destroy (destroy s) = destroy s
   \<and> destroyed (destroy s) \<and> reconnectTimer (destroy s) = None
   \<and> (\<forall>t. reconnectTimer s = Some t \<longrightarrow>
         t \<notin> set (timers (destroy s)) \<and> Cancelled t \<in> set (trace (destroy s)))
   \<and> (set (timers s) \<subseteq> set_option (reconnectTimer s) \<longrightarrow> timers (destroy s) = [])
   \<and> destroyed (run P es (destroy s))
   \<and> ws (run P es (destroy s)) = None
   \<and> filter reconnects (trace (run P es (destroy s))) = filter reconnects (trace (destroy s))
   \<and> filter writes (trace (run P es (destroy s))) = filter writes (trace (destroy s))
   \<and> connect (run P es (destroy s)) = run P es (destroy s)
   \<and> send m (run P es (destroy s)) = run P es (destroy s)"
proof -
  have dead: "destroyed (destroy s)" "ws (destroy s) = None" by (rule destroy_fields)+
  note r = run_dead [OF dead, of P es]
  from r have "connect (run P es (destroy s)) = run P es (destroy s)"
    by (simp add: connect_def)
  moreover from r have "send m (run P es (destroy s)) = run P es (destroy s)"
    by (simp add: send_def)
  ultimately show ?thesis
    using r destroy_idempotent [of s] destroy_fields(1,3) [of s] destroy_cancels [of s]
      destroy_only_timer [of s]
    by blast
qed

theorem destroy_is_terminal_witness:
  "timers (destroy quiet_client) = []
   \<and> filter reconnects (trace (run no_parse [TimerFires 1, Connect] (destroy quiet_client)))
       = [Constructed 0, Scheduled 1 2000]
   \<and> trace (destroy busy_client) = trace busy_client @ [Cancelled 2, CloseCalled 2]
   \<and> filter reconnects (trace (run no_parse
         [SendCall pong_reply, TimerFires 1, SocketClose 2, Connect, Destroy]
         (destroy busy_client)))
       = [Constructed 0, Scheduled 1 2000, Constructed 1, Scheduled 2 2000, Constructed 2]
   \<and> filter writes (trace (run no_parse
         [SendCall pong_reply, TimerFires 1, SocketClose 2, Connect, Destroy]
         (destroy busy_client)))
       = [Wrote 0 pong_reply]"
  using destroy_is_terminal [of quiet_client no_parse "[TimerFires 1, Connect]" pong_reply]
    destroy_is_terminal [of busy_client no_parse
      "[SendCall pong_reply, TimerFires 1, SocketClose 2, Connect, Destroy]" pong_reply]
  by (simp add: quiet_client_eq busy_client_eq destroy_def socket_close_def Let_def)

end
